theory Spec2Isabelle
  imports Complex_Main
begin

section \<open>Data model of the snowball game\<close>

text \<open>
  The repository holds two revisions of the class \<open>XmasGame\<close>: \<open>src/game.js\<close> (a card of
  fixed size 3 x 4.5 with 512 x 768 snow canvases) and the script in \<open>src/unnamed/part_000\<close>
  (a card 4 units wide whose height and canvases follow the loaded image).  The methods
  \<open>addSnowSplat\<close>, \<open>removeSnowball\<close>, \<open>cleanupPhysics\<close>, the physics part of \<open>animate\<close> and the
  collide listener are the same text in both; \<open>setupCard\<close>, \<open>updateAimVisuals\<close> and
  \<open>throwSnowball\<close> differ in constants, and the model takes the revision as an argument there.

  JavaScript numbers are modelled as real numbers, so every statement is about the exact
  formulas of the code, not about the rounding of IEEE doubles.
  Objects that are shared by reference (a snowball is held by the \<open>snowballs\<close> array, by the
  \<open>toRemove\<close> set and by the closure of its collide listener; its mesh by the scene; its body
  by the physics world) are modelled by their identity, a natural number handed out by an
  allocation counter, and by stores from identities to the fields of the object.
\<close>

datatype revision = GameJs | Part000

datatype vec3 = Vec3 (vx: real) (vy: real) (vz: real)

datatype quat = Quat real real real real

definition vadd :: "vec3 \<Rightarrow> vec3 \<Rightarrow> vec3" where
  "vadd a b = Vec3 (vx a + vx b) (vy a + vy b) (vz a + vz b)"

definition multiplyScalar :: "vec3 \<Rightarrow> real \<Rightarrow> vec3" where
  "multiplyScalar a k = Vec3 (vx a * k) (vy a * k) (vz a * k)"

definition negate :: "vec3 \<Rightarrow> vec3" where
  "negate a = Vec3 (- vx a) (- vy a) (- vz a)"

definition vlength :: "vec3 \<Rightarrow> real" where
  "vlength a = sqrt (vx a * vx a + vy a * vy a + vz a * vz a)"

text \<open>\<open>Vector3.normalize\<close> of three.js divides by \<open>length() || 1\<close>.\<close>

definition normalize :: "vec3 \<Rightarrow> vec3" where
  "normalize a =
     (let l = (if vlength a = 0 then 1 else vlength a)
      in Vec3 (vx a / l) (vy a / l) (vz a / l))"

datatype geometry = SphereGeometry real | PlaneGeometry real real | CylinderGeometry

record mesh =
  mpos :: vec3
  mquat :: quat
  mgeom :: geometry

datatype body_type = DYNAMIC | STATIC

datatype shape = Sphere real | Box vec3 | Plane | NoShape

record body =
  bpos :: vec3
  bquat :: quat
  bvel :: vec3
  bshape :: shape
  bmass :: real
  btype :: body_type
  linearDamping :: real
  angularDamping :: real

record snowball =
  mesh :: nat
  body :: nat
  timeAlive :: real
  isCollided :: bool

text \<open>
  A 2D canvas: its size, the current fill style and the circles filled so far (each
  \<open>beginPath(); arc(x, y, r, 0, 2 * PI); fill()\<close> appends one circle, with the fill style in
  force).
\<close>

datatype colour = RGBA nat nat nat real

record circle =
  cx :: real
  cy :: real
  cr :: real
  cfill :: colour

record canvas =
  cwidth :: nat
  cheight :: nat
  fillStyle :: colour
  drawn :: "circle list"

datatype rotation = RotateY real | RotateX real

record rect =
  rleft :: real
  rtop :: real
  rwidth :: real
  rheight :: real

record mouse_event =
  clientX :: real
  clientY :: real

record frame =
  fscene :: "nat list"
  fmeshes :: "nat \<Rightarrow> mesh"

datatype error = TypeError

text \<open>
  The fields of \<open>XmasGame\<close> that the modelled methods read or write.  \<open>this.world\<close> is assigned
  once by \<open>initPhysics\<close> in the constructor, before the first frame and before any listener is
  registered, and is never reassigned: the model starts after the constructor, so the world
  always exists and \<open>worldBodies\<close> is its \<open>bodies\<close> array.  \<open>this.card\<close> and \<open>this.cardBody\<close> are
  assigned in the same synchronous block of \<open>setupCard\<close> (in part_000 inside the texture-load
  callback, so both are undefined until the image has loaded): \<open>cardObj\<close> is \<open>None\<close> before and
  \<open>Some (mesh, body)\<close> after.  \<open>randoms\<close> is the sequence of values \<open>Math.random()\<close> returns
  and \<open>randIx\<close> the number of values consumed.  \<open>rendered\<close> is the frame last handed to
  \<open>renderer.render\<close>.
\<close>

record game =
  nextId :: nat
  meshes :: "nat \<Rightarrow> mesh"
  bodies :: "nat \<Rightarrow> body"
  snowballObjs :: "nat \<Rightarrow> snowball"
  scene :: "nat list"
  worldBodies :: "nat list"
  snowballs :: "nat list"
  toRemove :: "nat list"
  collideListeners :: "nat \<Rightarrow> nat option"
  isAiming :: bool
  aimingStart :: "real \<times> real"
  currentAim :: "real \<times> real"
  throwPower :: real
  cannonPosition :: vec3
  cannonRotation :: "rotation list"
  aimLine :: "vec3 list"
  aimPoint :: "(real \<times> real) option"
  currentPower :: real
  sizeSlider :: real
  canvasRect :: rect
  cardObj :: "(nat \<times> nat) option"
  snowCanvasFront :: canvas
  snowCanvasBack :: canvas
  overlayFrontNeedsUpdate :: bool
  overlayBackNeedsUpdate :: bool
  randoms :: "nat \<Rightarrow> real"
  randIx :: nat
  rendered :: "frame option"

text \<open>
  A collide event of cannon-es: \<open>ebody\<close> is \<open>e.body\<close>, the other body; \<open>cbi\<close>, \<open>cbj\<close>, \<open>ri\<close>, \<open>rj\<close>,
  \<open>ni\<close> are the fields of \<open>e.contact\<close>.
\<close>

record collide_event =
  ebody :: nat
  cbi :: nat
  cbj :: nat
  ri :: vec3
  rj :: vec3
  ni :: vec3

text \<open>
  What one call of \<open>world.step\<close> does, as far as the game can see it: it dispatches collide
  events (each to one body, with the body store as it is at that moment), leaves the bodies
  in a new state, and either returns or throws.
\<close>

record step_result =
  collisions :: "((nat \<Rightarrow> body) \<times> nat \<times> collide_event) list"
  newBodies :: "nat \<Rightarrow> body"
  completed :: bool

text \<open>
  The library functions the game calls and whose code is not part of the repository are
  parameters of the model: \<open>Vector3.applyEuler\<close> for the rotation of the cannon mesh,
  \<open>Object3D.worldToLocal\<close> for a mesh at a given position and orientation, and
  \<open>World.step\<close>.
\<close>

record libs =
  applyEuler :: "rotation list \<Rightarrow> vec3 \<Rightarrow> vec3"
  worldToLocal :: "vec3 \<Rightarrow> quat \<Rightarrow> vec3 \<Rightarrow> vec3"
  step :: "real \<Rightarrow> real \<Rightarrow> nat \<Rightarrow> game \<Rightarrow> step_result"

section \<open>The decal painter\<close>

definition clamp01 :: "real \<Rightarrow> real" where
  "clamp01 t = max 0 (min 1 t)"

text \<open>
  The \<open>i\<close>-th of the five small circles; \<open>r\<close> is \<open>Math.random\<close> and \<open>k\<close> the index of the first
  value this call of \<open>addSnowSplat\<close> consumes.
\<close>

definition smallCircle ::
  "(nat \<Rightarrow> real) \<Rightarrow> nat \<Rightarrow> canvas \<Rightarrow> real \<Rightarrow> real \<Rightarrow> real \<Rightarrow> colour \<Rightarrow> nat \<Rightarrow> circle" where
  "smallCircle r k cv x y sz col i =
     (let smallSize = sz * (0.2 + r (k + 2 + 3 * i) * 0.3);
          angle = r (k + 3 + 3 * i) * pi * 2;
          distance = sz * (0.5 + r (k + 4 + 3 * i) * 0.5);
          smallX = max 0 (min (real (cwidth cv)) (x + cos angle * distance));
          smallY = max 0 (min (real (cheight cv)) (y + sin angle * distance))
      in \<lparr>cx = smallX, cy = smallY, cr = smallSize, cfill = col\<rparr>)"

definition splatU :: "vec3 \<Rightarrow> real" where
  "splatU localPosition = (vx localPosition / 1.5 + 1) * 0.5"

definition splatV :: "vec3 \<Rightarrow> real" where
  "splatV localPosition = (vy localPosition / 2.25 + 1) * 0.5"

definition mainCircle :: "(nat \<Rightarrow> real) \<Rightarrow> nat \<Rightarrow> canvas \<Rightarrow> vec3 \<Rightarrow> circle" where
  "mainCircle r k cv localPosition =
     (let clampedU = clamp01 (splatU localPosition);
          clampedV = clamp01 (splatV localPosition);
          x = clampedU * real (cwidth cv);
          y = (1 - clampedV) * real (cheight cv);
          sz = 20 + r k * 20;
          opacity = 0.3 + r (k + 1) * 0.3
      in \<lparr>cx = x, cy = y, cr = sz, cfill = RGBA 255 255 255 opacity\<rparr>)"

definition splatCircles :: "(nat \<Rightarrow> real) \<Rightarrow> nat \<Rightarrow> vec3 \<Rightarrow> canvas \<Rightarrow> circle list" where
  "splatCircles r k localPosition cv =
     (let m = mainCircle r k cv localPosition
      in m # map (smallCircle r k cv (cx m) (cy m) (cr m) (cfill m)) [0..<5])"

definition paintSplat :: "(nat \<Rightarrow> real) \<Rightarrow> nat \<Rightarrow> vec3 \<Rightarrow> canvas \<Rightarrow> canvas" where
  "paintSplat r k localPosition cv =
     cv\<lparr>fillStyle := cfill (mainCircle r k cv localPosition),
        drawn := drawn cv @ splatCircles r k localPosition cv\<rparr>"

definition hitFront :: "libs \<Rightarrow> mesh \<Rightarrow> vec3 \<Rightarrow> bool" where
  "hitFront L cardMesh normal =
     (let localNormal =
            normalize (worldToLocal L (mpos cardMesh) (mquat cardMesh)
                         (vadd normal (mpos cardMesh)))
      in vz localNormal < 0)"

text \<open>
  \<open>addSnowSplat(localPosition, normal)\<close>.  Before the card exists \<open>this.card.worldToLocal\<close>
  raises a TypeError.  One call consumes 17 values of \<open>Math.random\<close>.
\<close>

definition addSnowSplat :: "libs \<Rightarrow> vec3 \<Rightarrow> vec3 \<Rightarrow> game \<Rightarrow> error + game" where
  "addSnowSplat L localPosition normal st =
     (case cardObj st of
        None \<Rightarrow> Inl TypeError
      | Some (c, cb) \<Rightarrow>
          if hitFront L (meshes st c) normal
          then Inr (st\<lparr>snowCanvasFront :=
                          paintSplat (randoms st) (randIx st) localPosition (snowCanvasFront st),
                        overlayFrontNeedsUpdate := True,
                        randIx := randIx st + 17\<rparr>)
          else Inr (st\<lparr>snowCanvasBack :=
                          paintSplat (randoms st) (randIx st) localPosition (snowCanvasBack st),
                        overlayBackNeedsUpdate := True,
                        randIx := randIx st + 17\<rparr>))"

section \<open>Deferred removal of snowballs\<close>

text \<open>
  \<open>removeSnowball\<close> adds the snowball to the set \<open>toRemove\<close>; a JavaScript \<open>Set\<close> keeps
  insertion order and ignores an element it already holds.
\<close>

definition removeSnowball :: "nat \<Rightarrow> game \<Rightarrow> game" where
  "removeSnowball s st =
     st\<lparr>toRemove := (if s \<in> set (toRemove st) then toRemove st else toRemove st @ [s])\<rparr>"

text \<open>
  The body of the loop of \<open>cleanupPhysics\<close> for one snowball.  \<open>snowball.mesh\<close> and
  \<open>snowball.body\<close> are objects for every snowball the game creates, so the two truthiness
  tests are taken.  \<open>scene.remove\<close>, \<open>world.removeBody\<close> and \<open>indexOf\<close> with \<open>splice\<close> each
  delete the first occurrence, if there is one.
\<close>

definition removeOne :: "nat \<Rightarrow> game \<Rightarrow> game" where
  "removeOne s st =
     (let sb = snowballObjs st s;
          st1 = st\<lparr>scene := remove1 (mesh sb) (scene st)\<rparr>;
          st2 = (if body sb \<in> set (worldBodies st1)
                 then st1\<lparr>worldBodies := remove1 (body sb) (worldBodies st1)\<rparr>
                 else st1)
      in st2\<lparr>snowballs := remove1 s (snowballs st2)\<rparr>)"

fun processRemovals :: "nat list \<Rightarrow> game \<Rightarrow> game" where
  "processRemovals [] st = st"
| "processRemovals (s # ss) st = processRemovals ss (removeOne s st)"

definition cleanupPhysics :: "game \<Rightarrow> game" where
  "cleanupPhysics st = (processRemovals (toRemove st) st)\<lparr>toRemove := []\<rparr>"

section \<open>The collide listener\<close>

text \<open>
  The listener that \<open>throwSnowball\<close> registers on the body of snowball \<open>s\<close>.  Bodies are
  compared by identity, which is also their cannon-es \<open>id\<close>.  Before the card exists
  \<open>this.cardBody\<close> is undefined and equals no body.  An exception of \<open>addSnowSplat\<close> would
  leave the listener before \<open>removeSnowball\<close>; \<open>addSnowSplat_returns\<close> shows that none is
  raised here.
\<close>

definition onCollide :: "libs \<Rightarrow> nat \<Rightarrow> collide_event \<Rightarrow> game \<Rightarrow> game" where
  "onCollide L s e st =
     (case cardObj st of
        None \<Rightarrow> st
      | Some (c, cb) \<Rightarrow>
          if \<not> isCollided (snowballObjs st s) \<and> ebody e = cb then
            (let st1 = st\<lparr>snowballObjs :=
                            (snowballObjs st)(s := (snowballObjs st s)\<lparr>isCollided := True\<rparr>)\<rparr>;
                 cardIsBody1 = (cbi e = cb);
                 contactPoint = vadd (bpos (bodies st1 cb)) (if cardIsBody1 then ri e else rj e);
                 contactNormal = (if cardIsBody1 then negate (ni e) else ni e);
                 localPos = worldToLocal L (mpos (meshes st1 c)) (mquat (meshes st1 c)) contactPoint
             in case addSnowSplat L localPos contactNormal st1 of
                  Inr st2 \<Rightarrow> removeSnowball s st2
                | Inl err \<Rightarrow> st1)
          else st)"

text \<open>
  Dispatching the collide events of one world step: each event goes to the listener
  registered on its target body, if any, with the bodies as they are at that moment.
\<close>

fun dispatchCollide ::
  "libs \<Rightarrow> ((nat \<Rightarrow> body) \<times> nat \<times> collide_event) list \<Rightarrow> game \<Rightarrow> game" where
  "dispatchCollide L [] st = st"
| "dispatchCollide L ((bs, b, e) # evs) st =
     dispatchCollide L evs
       (case collideListeners st b of
          None \<Rightarrow> st\<lparr>bodies := bs\<rparr>
        | Some s \<Rightarrow> onCollide L s e (st\<lparr>bodies := bs\<rparr>))"

section \<open>The animation frame\<close>

definition syncCard :: "game \<Rightarrow> game" where
  "syncCard st =
     (case cardObj st of
        None \<Rightarrow> st
      | Some (c, cb) \<Rightarrow>
          st\<lparr>meshes := (meshes st)
                (c := (meshes st c)\<lparr>mpos := bpos (bodies st cb), mquat := bquat (bodies st cb)\<rparr>)\<rparr>)"

text \<open>The body of the loop over \<open>this.snowballs\<close> in \<open>animate\<close>, for the snowball \<open>s\<close>.\<close>

definition updateSnowball :: "real \<Rightarrow> nat \<Rightarrow> game \<Rightarrow> game" where
  "updateSnowball fixedTimeStep s st =
     (let sb = snowballObjs st s in
      if body sb \<in> set (worldBodies st) \<and> s \<notin> set (toRemove st) then
        (let sb1 = sb\<lparr>timeAlive := timeAlive sb + fixedTimeStep\<rparr>;
             b = bodies st (body sb);
             st1 = st\<lparr>snowballObjs := (snowballObjs st)(s := sb1),
                      meshes := (meshes st)
                        (mesh sb := (meshes st (mesh sb))\<lparr>mpos := bpos b, mquat := bquat b\<rparr>)\<rparr>
         in if timeAlive sb1 > 5 \<or> vy (bpos b) < - 3 then removeSnowball s st1 else st1)
      else st)"

fun updateSnowballs :: "real \<Rightarrow> nat list \<Rightarrow> game \<Rightarrow> game" where
  "updateSnowballs dt [] st = st"
| "updateSnowballs dt (s # ss) st = updateSnowballs dt ss (updateSnowball dt s st)"

definition render :: "game \<Rightarrow> game" where
  "render st = st\<lparr>rendered := Some \<lparr>fscene = scene st, fmeshes = meshes st\<rparr>\<rparr>"

text \<open>
  The state in which \<open>world.step\<close> leaves the game: the listeners have run on the events it
  dispatched and the bodies are in their new state.
\<close>

definition afterStep :: "libs \<Rightarrow> game \<Rightarrow> game" where
  "afterStep L st =
     (let r = step L (1 / 60) (1 / 60) 3 st
      in (dispatchCollide L (collisions r) st)\<lparr>bodies := newBodies r\<rparr>)"

text \<open>
  \<open>animate\<close>, from the test of \<open>this.world\<close> on (the snow particles of part_000 touch none of
  the fields modelled).  The loop runs from the last snowball to the first.  When
  \<open>world.step\<close> throws, the \<open>catch\<close> block runs \<open>cleanupPhysics\<close> only.
\<close>

definition animate :: "libs \<Rightarrow> game \<Rightarrow> game" where
  "animate L st =
     (let fixedTimeStep = 1 / 60;
          maxSubSteps = 3;
          r = step L fixedTimeStep fixedTimeStep maxSubSteps st;
          st1 = (dispatchCollide L (collisions r) st)\<lparr>bodies := newBodies r\<rparr>
      in if completed r then
           (let st2 = cleanupPhysics st1;
                st3 = syncCard st2
            in render (updateSnowballs fixedTimeStep (rev (snowballs st3)) st3))
         else render (cleanupPhysics st1))"

section \<open>Aiming and throwing\<close>

definition ndcX :: "rect \<Rightarrow> mouse_event \<Rightarrow> real" where
  "ndcX rc ev = ((clientX ev - rleft rc) / rwidth rc) * 2 - 1"

definition ndcY :: "rect \<Rightarrow> mouse_event \<Rightarrow> real" where
  "ndcY rc ev = - ((clientY ev - rtop rc) / rheight rc) * 2 + 1"

definition azimuthAngle :: "real \<Rightarrow> real" where
  "azimuthAngle x = - x * pi / 2"

text \<open>
  game.js: \<open>Math.max(0, Math.min(Math.PI / 2, (y + 1) * Math.PI / 2))\<close>;
  part_000: \<open>(y + 1) * Math.PI / 4\<close>.
\<close>

definition elevationAngle :: "revision \<Rightarrow> real \<Rightarrow> real" where
  "elevationAngle rv y =
     (case rv of
        GameJs \<Rightarrow> max 0 (min (pi / 2) ((y + 1) * pi / 2))
      | Part000 \<Rightarrow> (y + 1) * pi / 4)"

text \<open>
  \<open>rotation.set(0, 0, 0); rotateY(azimuthAngle); rotateX(-elevationAngle)\<close> leaves the cannon
  with the composition of the two rotations, kept here as the list of the rotations applied
  to the identity.
\<close>

definition updateAimVisuals :: "revision \<Rightarrow> libs \<Rightarrow> mouse_event \<Rightarrow> game \<Rightarrow> game" where
  "updateAimVisuals rv L ev st =
     (if \<not> isAiming st then st
      else
        (let x = ndcX (canvasRect st) ev;
             y = ndcY (canvasRect st) ev;
             ap = (case rv of
                     GameJs \<Rightarrow> aimPoint st
                   | Part000 \<Rightarrow> (case aimPoint st of None \<Rightarrow> None | Some p \<Rightarrow> Some (x, y)));
             rot = [RotateY (azimuthAngle x), RotateX (- elevationAngle rv y)];
             direction = applyEuler L rot (Vec3 0 0 (- 1));
             aimLength = 4 + currentPower st * 0.05
         in st\<lparr>aimPoint := ap,
               cannonRotation := rot,
               aimLine := [cannonPosition st,
                           vadd (cannonPosition st) (multiplyScalar direction aimLength)]\<rparr>))"

definition startAiming :: "revision \<Rightarrow> libs \<Rightarrow> mouse_event \<Rightarrow> game \<Rightarrow> game" where
  "startAiming rv L ev st =
     updateAimVisuals rv L ev
       (st\<lparr>isAiming := True,
           aimingStart := (clientX ev, clientY ev),
           currentAim := (clientX ev, clientY ev),
           throwPower := 0\<rparr>)"

definition updateAiming :: "revision \<Rightarrow> libs \<Rightarrow> mouse_event \<Rightarrow> game \<Rightarrow> game" where
  "updateAiming rv L ev st =
     (if \<not> isAiming st then st
      else updateAimVisuals rv L ev (st\<lparr>currentAim := (clientX ev, clientY ev)\<rparr>))"

text \<open>game.js: \<open>parseFloat(this.sizeSlider.value) * 0.2\<close>; part_000: \<open>... * 0.1\<close>.\<close>

definition snowballSize :: "revision \<Rightarrow> game \<Rightarrow> real" where
  "snowballSize rv st = sizeSlider st * (case rv of GameJs \<Rightarrow> 0.2 | Part000 \<Rightarrow> 0.1)"

text \<open>
  The damping of the snowball body: part_000 passes 0.1 for both; game.js passes none and
  gets the defaults of cannon-es, 0.01.
\<close>

definition snowballDamping :: "revision \<Rightarrow> real" where
  "snowballDamping rv = (case rv of GameJs \<Rightarrow> 0.01 | Part000 \<Rightarrow> 0.1)"

definition aimDirection :: "libs \<Rightarrow> game \<Rightarrow> vec3" where
  "aimDirection L st = applyEuler L (cannonRotation st) (Vec3 0 0 (- 1))"

text \<open>
  \<open>throwSnowball\<close>, the mouseup listener.  \<open>new THREE.Mesh\<close>, \<open>new CANNON.Body\<close> and the object
  literal of the snowball each create an object: they get the next three identities.  A new
  mesh has no parent and a new body is in no world, so \<open>scene.add\<close> and \<open>world.addBody\<close>
  append them.  \<open>direction.multiplyScalar(0.5)\<close> scales the vector in place; the code sets
  it to \<open>(0, 0, -1)\<close> and rotates it again before it reads the velocity from it, so the
  velocity is along the unscaled aim direction.
\<close>

definition throwSnowball :: "revision \<Rightarrow> libs \<Rightarrow> game \<Rightarrow> game" where
  "throwSnowball rv L st =
     (if \<not> isAiming st then st
      else
        (let m = nextId st;
             b = nextId st + 1;
             s = nextId st + 2;
             direction = aimDirection L st;
             muzzleOffset = multiplyScalar direction 0.5;
             position = vadd (cannonPosition st) muzzleOffset;
             snowballMesh = \<lparr>mpos = position, mquat = Quat 0 0 0 1,
                             mgeom = SphereGeometry (snowballSize rv st)\<rparr>;
             speed = currentPower st * 0.5;
             snowballBody = \<lparr>bpos = position, bquat = Quat 0 0 0 1,
                             bvel = Vec3 (vx direction * speed) (vy direction * speed)
                                         (vz direction * speed),
                             bshape = Sphere (snowballSize rv st), bmass = 0.1,
                             btype = DYNAMIC,
                             linearDamping = snowballDamping rv,
                             angularDamping = snowballDamping rv\<rparr>
         in st\<lparr>isAiming := False,
               aimLine := [],
               nextId := nextId st + 3,
               meshes := (meshes st)(m := snowballMesh),
               scene := scene st @ [m],
               bodies := (bodies st)(b := snowballBody),
               worldBodies := worldBodies st @ [b],
               snowballObjs := (snowballObjs st)
                 (s := \<lparr>mesh = m, body = b, timeAlive = 0, isCollided = False\<rparr>),
               snowballs := snowballs st @ [s],
               collideListeners := (collideListeners st)(b \<mapsto> s)\<rparr>))"

section \<open>Construction\<close>

text \<open>
  The state the constructor leaves before \<open>setupCard\<close>: the objects that \<open>setupScene\<close>,
  \<open>setupCannon\<close> and (in part_000) \<open>setupSnowfall\<close> add to the scene are numbered from 0, the
  ground body of \<open>initPhysics\<close> follows them.  The arguments are what the page supplies: the
  value of the size slider, the bounding rectangle of the renderer's canvas and the values
  of \<open>Math.random\<close>.  The stores hold a placeholder at every identity not handed out yet,
  and the snow canvases, which do not exist before \<open>setupCard\<close>, are empty.
\<close>

definition sceneObjects :: "revision \<Rightarrow> nat" where
  "sceneObjects rv = (case rv of GameJs \<Rightarrow> 7 | Part000 \<Rightarrow> 14)"

definition blankCanvas :: "nat \<Rightarrow> nat \<Rightarrow> canvas" where
  "blankCanvas w h = \<lparr>cwidth = w, cheight = h, fillStyle = RGBA 0 0 0 0, drawn = []\<rparr>"

definition groundBody :: "revision \<Rightarrow> body" where
  "groundBody rv =
     \<lparr>bpos = (case rv of GameJs \<Rightarrow> Vec3 0 (- 2) 0 | Part000 \<Rightarrow> Vec3 0 (- 2) 60),
      bquat = Quat (- sqrt 2 / 2) 0 0 (sqrt 2 / 2), bvel = Vec3 0 0 0, bshape = Plane,
      bmass = 0, btype = STATIC, linearDamping = 0.01, angularDamping = 0.01\<rparr>"

definition constructed :: "revision \<Rightarrow> real \<Rightarrow> rect \<Rightarrow> (nat \<Rightarrow> real) \<Rightarrow> game" where
  "constructed rv slider rc rnd =
     \<lparr>nextId = sceneObjects rv + 1,
      meshes = (\<lambda>i. \<lparr>mpos = Vec3 0 0 0, mquat = Quat 0 0 0 1, mgeom = CylinderGeometry\<rparr>),
      bodies = (\<lambda>i. groundBody rv),
      snowballObjs = (\<lambda>i. \<lparr>mesh = 0, body = 0, timeAlive = 0, isCollided = False\<rparr>),
      scene = [0..<sceneObjects rv],
      worldBodies = [sceneObjects rv],
      snowballs = [],
      toRemove = [],
      collideListeners = (\<lambda>b. None),
      isAiming = False,
      aimingStart = (0, 0),
      currentAim = (0, 0),
      throwPower = 0,
      cannonPosition = Vec3 0 (- 1.5) 4,
      cannonRotation = [],
      aimLine = [],
      aimPoint = (case rv of GameJs \<Rightarrow> None | Part000 \<Rightarrow> Some (0, 0)),
      currentPower = 30,
      sizeSlider = slider,
      canvasRect = rc,
      cardObj = None,
      snowCanvasFront = blankCanvas 0 0,
      snowCanvasBack = blankCanvas 0 0,
      overlayFrontNeedsUpdate = False,
      overlayBackNeedsUpdate = False,
      randoms = rnd,
      randIx = 0,
      rendered = None\<rparr>"

text \<open>
  The size of the card geometry and of the two snow canvases.  game.js:
  \<open>PlaneGeometry(3, 4.5)\<close> and 512 x 768.  part_000: \<open>cardWidth = 4\<close>,
  \<open>cardHeight = cardWidth * (imageHeight / imageWidth)\<close>, and canvases of the size of the
  image.
\<close>

definition cardWidth :: "revision \<Rightarrow> real" where
  "cardWidth rv = (case rv of GameJs \<Rightarrow> 3 | Part000 \<Rightarrow> 4)"

definition cardHeight :: "revision \<Rightarrow> nat \<Rightarrow> nat \<Rightarrow> real" where
  "cardHeight rv imageWidth imageHeight =
     (case rv of GameJs \<Rightarrow> 4.5 | Part000 \<Rightarrow> 4 * (real imageHeight / real imageWidth))"

definition canvasWidth :: "revision \<Rightarrow> nat \<Rightarrow> nat" where
  "canvasWidth rv imageWidth = (case rv of GameJs \<Rightarrow> 512 | Part000 \<Rightarrow> imageWidth)"

definition canvasHeight :: "revision \<Rightarrow> nat \<Rightarrow> nat" where
  "canvasHeight rv imageHeight = (case rv of GameJs \<Rightarrow> 768 | Part000 \<Rightarrow> imageHeight)"

text \<open>
  \<open>setupCard\<close> (in part_000: its texture-load callback, for an image of the given size).  It
  creates the card mesh, the two canvases and overlays, the card body and the anchor body.
\<close>

definition setupCard :: "revision \<Rightarrow> nat \<Rightarrow> nat \<Rightarrow> game \<Rightarrow> game" where
  "setupCard rv imageWidth imageHeight st =
     (let c = nextId st;
          cb = nextId st + 1;
          anchor = nextId st + 2;
          w = cardWidth rv;
          h = cardHeight rv imageWidth imageHeight;
          z = (case rv of GameJs \<Rightarrow> 0 | Part000 \<Rightarrow> - 1);
          cardBody = \<lparr>bpos = Vec3 0 0 z, bquat = Quat 0 0 0 1, bvel = Vec3 0 0 0,
                      bshape = Box (Vec3 (w / 2) (h / 2) 0.1), bmass = 1, btype = DYNAMIC,
                      linearDamping = 0.3, angularDamping = 0.3\<rparr>;
          anchorBody = \<lparr>bpos = (case rv of GameJs \<Rightarrow> Vec3 0 3 0
                                          | Part000 \<Rightarrow> Vec3 0 (h / 2 + 0.5) (- 1)),
                        bquat = Quat 0 0 0 1, bvel = Vec3 0 0 0, bshape = NoShape, bmass = 0,
                        btype = STATIC, linearDamping = 0.01, angularDamping = 0.01\<rparr>
      in st\<lparr>nextId := nextId st + 3,
            meshes := (meshes st)
              (c := \<lparr>mpos = Vec3 0 0 z, mquat = Quat 0 0 0 1, mgeom = PlaneGeometry w h\<rparr>),
            scene := scene st @ [c],
            snowCanvasFront :=
              blankCanvas (canvasWidth rv imageWidth) (canvasHeight rv imageHeight),
            snowCanvasBack :=
              blankCanvas (canvasWidth rv imageWidth) (canvasHeight rv imageHeight),
            overlayFrontNeedsUpdate := True,
            overlayBackNeedsUpdate := True,
            bodies := (bodies st)(cb := cardBody, anchor := anchorBody),
            worldBodies := worldBodies st @ [cb, anchor],
            cardObj := Some (c, cb)\<rparr>)"

section \<open>Runs of the game\<close>

text \<open>
  What happens to a running game: the three mouse listeners of \<open>setupControls\<close>, an animation
  frame, and the arrival of the card image (in part_000 the callback that builds the card;
  in game.js the callback only sets the texture of the material, which the model does not
  hold).  The game starts in the state the constructor leaves: in game.js with the card set
  up, in part_000 without it.
\<close>

datatype action =
  MouseDown mouse_event | MouseMove mouse_event | MouseUp | Frame | CardTextureLoaded nat nat

fun perform :: "revision \<Rightarrow> libs \<Rightarrow> action \<Rightarrow> game \<Rightarrow> game" where
  "perform rv L (MouseDown ev) st = startAiming rv L ev st"
| "perform rv L (MouseMove ev) st = updateAiming rv L ev st"
| "perform rv L MouseUp st = throwSnowball rv L st"
| "perform rv L Frame st = animate L st"
| "perform rv L (CardTextureLoaded w h) st =
     (case rv of GameJs \<Rightarrow> st | Part000 \<Rightarrow> setupCard Part000 w h st)"

fun run :: "revision \<Rightarrow> libs \<Rightarrow> action list \<Rightarrow> game \<Rightarrow> game" where
  "run rv L [] st = st"
| "run rv L (a # as) st = run rv L as (perform rv L a st)"

definition started :: "revision \<Rightarrow> real \<Rightarrow> rect \<Rightarrow> (nat \<Rightarrow> real) \<Rightarrow> game" where
  "started rv slider rc rnd =
     (case rv of
        GameJs \<Rightarrow> setupCard GameJs 0 0 (constructed GameJs slider rc rnd)
      | Part000 \<Rightarrow> constructed Part000 slider rc rnd)"

section \<open>The painted pixel\<close>

text \<open>
  The pixel that corresponds proportionally to a point of a plane geometry of width \<open>w\<close> and
  height \<open>h\<close>, on a canvas: \<open>u = (x / (w / 2) + 1) * 0.5\<close>, \<open>v = (y / (h / 2) + 1) * 0.5\<close>, pixel
  \<open>(u * canvasWidth, (1 - v) * canvasHeight)\<close>.
\<close>

definition proportionalPixel :: "real \<Rightarrow> real \<Rightarrow> canvas \<Rightarrow> vec3 \<Rightarrow> real \<times> real" where
  "proportionalPixel w h cv p =
     (let u = (vx p / (w / 2) + 1) * 0.5;
          v = (vy p / (h / 2) + 1) * 0.5
      in (u * real (cwidth cv), (1 - v) * real (cheight cv)))"

definition centre :: "circle \<Rightarrow> real \<times> real" where
  "centre c = (cx c, cy c)"

definition inCanvas :: "canvas \<Rightarrow> circle \<Rightarrow> bool" where
  "inCanvas cv c \<longleftrightarrow>
     0 \<le> cx c \<and> cx c \<le> real (cwidth cv) \<and> 0 \<le> cy c \<and> cy c \<le> real (cheight cv)"

text \<open>The circles a canvas has gained between two states of it.\<close>

definition newCircles :: "canvas \<Rightarrow> canvas \<Rightarrow> circle list" where
  "newCircles cv cv' = drop (length (drawn cv)) (drawn cv')"

text \<open>The number of circles painted on the two snow canvases; one splat is six circles.\<close>

definition circleCount :: "game \<Rightarrow> nat" where
  "circleCount st = length (drawn (snowCanvasFront st)) + length (drawn (snowCanvasBack st))"

text \<open>The listener of snowball \<open>s\<close> receiving a sequence of collide events.\<close>

fun collideAll :: "libs \<Rightarrow> nat \<Rightarrow> collide_event list \<Rightarrow> game \<Rightarrow> game" where
  "collideAll L s [] st = st"
| "collideAll L s (e # es) st = collideAll L s es (onCollide L s e st)"

section \<open>Well-formed states\<close>

text \<open>
  The snowballs the game has created are the ones with a collide listener: \<open>throwSnowball\<close>
  registers the listener of the snowball on its body.  The states the game can reach keep
  the children of the scene, the bodies of the world and the tracked snowballs free of
  repetition, only hold identities that have been handed out, give every created snowball
  a mesh and a body of its own (its three identities are consecutive), keep the body of
  every tracked snowball in the world, and keep the card apart from the snowballs.
\<close>

definition created :: "game \<Rightarrow> nat \<Rightarrow> bool" where
  "created st s \<longleftrightarrow> collideListeners st (body (snowballObjs st s)) = Some s"

definition wellFormed :: "game \<Rightarrow> bool" where
  "wellFormed st \<longleftrightarrow>
     distinct (scene st) \<and> distinct (worldBodies st) \<and> distinct (snowballs st) \<and>
     (\<forall>i \<in> set (scene st) \<union> set (worldBodies st). i < nextId st) \<and>
     (\<forall>b s. collideListeners st b = Some s \<longrightarrow>
        s < nextId st \<and> body (snowballObjs st s) = b \<and> b + 1 = s \<and>
        mesh (snowballObjs st s) + 2 = s) \<and>
     (\<forall>s \<in> set (snowballs st) \<union> set (toRemove st). created st s) \<and>
     (\<forall>s \<in> set (snowballs st). body (snowballObjs st s) \<in> set (worldBodies st)) \<and>
     (\<forall>c cb. cardObj st = Some (c, cb) \<longrightarrow>
        c < nextId st \<and> cb < nextId st \<and>
        (\<forall>b s. collideListeners st b = Some s \<longrightarrow> mesh (snowballObjs st s) \<noteq> c \<and> b \<noteq> cb))"

section \<open>Example states\<close>

text \<open>
  Concrete libraries (a cannon direction that ignores the rotation, a card frame that is a
  pure translation, a world step that moves nothing and reports no collision), a page with
  the size slider at 5 and a 800 x 600 canvas, and the game with the card set up for an
  image of 512 x 768 pixels.
\<close>

definition exampleLibs :: libs where
  "exampleLibs =
     \<lparr>applyEuler = (\<lambda>rot v. v),
      worldToLocal = (\<lambda>p q v. Vec3 (vx v - vx p) (vy v - vy p) (vz v - vz p)),
      step = (\<lambda>dt t n st. \<lparr>collisions = [], newBodies = bodies st, completed = True\<rparr>)\<rparr>"

definition exampleRect :: rect where
  "exampleRect = \<lparr>rleft = 0, rtop = 0, rwidth = 800, rheight = 600\<rparr>"

definition exampleGame :: "revision \<Rightarrow> game" where
  "exampleGame rv = setupCard rv 512 768 (constructed rv 5 exampleRect (\<lambda>i. 0))"

definition exampleClick :: mouse_event where
  "exampleClick = \<lparr>clientX = 400, clientY = 300\<rparr>"

definition aimingGame :: "revision \<Rightarrow> game" where
  "aimingGame rv = startAiming rv exampleLibs exampleClick (exampleGame rv)"

text \<open>
  A run of game.js: a throw, the despawn of that snowball (marked, then cleaned up), and a
  second throw.
\<close>

definition firstThrow :: game where
  "firstThrow = throwSnowball GameJs exampleLibs (aimingGame GameJs)"

definition despawned :: game where
  "despawned = cleanupPhysics (removeSnowball 13 firstThrow)"

definition secondThrow :: game where
  "secondThrow =
     throwSnowball GameJs exampleLibs (startAiming GameJs exampleLibs exampleClick despawned)"

text \<open>
  Two collide events for the snowball of \<open>firstThrow\<close> (body 12): one with the ground
  (body 7), one with the card (body 9).
\<close>

definition groundHit :: collide_event where
  "groundHit = \<lparr>ebody = 7, cbi = 12, cbj = 7, ri = Vec3 0 (- 1) 0, rj = Vec3 0 0 0,
                 ni = Vec3 0 (- 1) 0\<rparr>"

definition cardHit :: collide_event where
  "cardHit = \<lparr>ebody = 9, cbi = 9, cbj = 12, ri = Vec3 (1 / 2) (1 / 2) (1 / 10),
               rj = Vec3 0 0 (- 1), ni = Vec3 0 0 1\<rparr>"

text \<open>
  A world step that swings the card body (body 9 of the game.js example) to
  \<open>(0.1, 0, 0)\<close>, reports no collision and returns.
\<close>

definition swingLibs :: libs where
  "swingLibs =
     exampleLibs\<lparr>step := (\<lambda>dt t n st.
       \<lparr>collisions = [],
        newBodies = (bodies st)(9 := (bodies st 9)\<lparr>bpos := Vec3 (1 / 10) 0 0\<rparr>),
        completed = True\<rparr>)\<rparr>"

text \<open>A world step that drops the body of the first snowball (body 12) to \<open>y = -4\<close>.\<close>

definition fallLibs :: libs where
  "fallLibs =
     exampleLibs\<lparr>step := (\<lambda>dt t n st.
       \<lparr>collisions = [],
        newBodies = (bodies st)(12 := (bodies st 12)\<lparr>bpos := Vec3 0 (- 4) 0\<rparr>),
        completed = True\<rparr>)\<rparr>"

text \<open>
  A world step in which the first snowball (body 12) collides with the card: it dispatches
  the collide event \<open>cardHit\<close> to the snowball's body, moves nothing and returns.
\<close>

definition hitLibs :: libs where
  "hitLibs =
     exampleLibs\<lparr>step := (\<lambda>dt t n st.
       \<lparr>collisions = [(bodies st, 12, cardHit)], newBodies = bodies st,
        completed = True\<rparr>)\<rparr>"

text \<open>
  The rotations of three.js, written out.  \<open>Object3D.rotateY(a)\<close> and \<open>rotateX(a)\<close> multiply
  the quaternion of the object on the right by the right-handed rotation by \<open>a\<close> about the
  local axis, and \<open>Vector3.applyEuler\<close> with the rotation of the object applies the
  resulting rotation to the vector: after \<open>rotateY(a); rotateX(b)\<close> the vector is turned
  about X by \<open>b\<close> first and about Y by \<open>a\<close> then.  \<open>threeLibs\<close> is the example library with
  this \<open>applyEuler\<close>.
\<close>

fun rotateVec :: "rotation \<Rightarrow> vec3 \<Rightarrow> vec3" where
  "rotateVec (RotateY a) v =
     Vec3 (vx v * cos a + vz v * sin a) (vy v) (- vx v * sin a + vz v * cos a)"
| "rotateVec (RotateX a) v =
     Vec3 (vx v) (vy v * cos a - vz v * sin a) (vy v * sin a + vz v * cos a)"

definition threeLibs :: libs where
  "threeLibs = exampleLibs\<lparr>applyEuler := (\<lambda>rot v. foldr rotateVec rot v)\<rparr>"

text \<open>
  Two more mouse events on the 800 x 600 canvas: one in the bottom right corner
  (\<open>x = 1\<close>, \<open>y = -1\<close>) and one on the top edge, three quarters to the right
  (\<open>x = 0.5\<close>, \<open>y = 1\<close>).
\<close>

definition cornerClick :: mouse_event where
  "cornerClick = \<lparr>clientX = 800, clientY = 600\<rparr>"


text \<open>
  A world step that moves the card body (body 9 of the game.js example) to
  \<open>(0.1, 0, 0)\<close> and then throws.
\<close>

definition throwingLibs :: libs where
  "throwingLibs =
     exampleLibs\<lparr>step := (\<lambda>dt t n st.
       \<lparr>collisions = [],
        newBodies = (bodies st)(9 := (bodies st 9)\<lparr>bpos := Vec3 (1 / 10) 0 0\<rparr>),
        completed = False\<rparr>)\<rparr>"

section \<open>Facts about the example states\<close>

lemma exampleGame_card:
  "cardObj (exampleGame GameJs) = Some (8, 9)"
  "cardObj (exampleGame Part000) = Some (15, 16)"
  by (simp_all add: exampleGame_def setupCard_def constructed_def sceneObjects_def Let_def)

lemma exampleGame_part000_geometry:
  "mgeom (meshes (exampleGame Part000) 15) = PlaneGeometry 4 6"
  by (simp add: exampleGame_def setupCard_def constructed_def sceneObjects_def Let_def
      cardWidth_def cardHeight_def)

lemma exampleGame_part000_hitFront:
  "hitFront exampleLibs (meshes (exampleGame Part000) 15) (Vec3 0 0 (- 1))"
  by (simp add: exampleGame_def setupCard_def constructed_def sceneObjects_def Let_def
      hitFront_def exampleLibs_def vadd_def normalize_def vlength_def)

lemma exampleGame_canvas:
  "snowCanvasFront (exampleGame rv) = blankCanvas 512 768"
  "snowCanvasBack (exampleGame rv) = blankCanvas 512 768"
  by (cases rv; simp add: exampleGame_def setupCard_def constructed_def sceneObjects_def Let_def
      canvasWidth_def canvasHeight_def)+

lemma aimingGame_facts:
  "isAiming (aimingGame rv)"
  "nextId (aimingGame rv) = sceneObjects rv + 4"
  "cardObj (aimingGame rv) = cardObj (exampleGame rv)"
  "canvasRect (aimingGame rv) = exampleRect"
  by (simp_all add: aimingGame_def startAiming_def updateAimVisuals_def Let_def exampleGame_def
      setupCard_def constructed_def)

lemma firstThrow_facts:
  "snowballs firstThrow = [13]"
  "mesh (snowballObjs firstThrow 13) = 11"
  "body (snowballObjs firstThrow 13) = 12"
  "\<not> isCollided (snowballObjs firstThrow 13)"
  "scene firstThrow = [0..<7] @ [8, 11]"
  "worldBodies firstThrow = [7, 9, 10, 12]"
  "toRemove firstThrow = []"
  "nextId firstThrow = 14"
  "cardObj firstThrow = Some (8, 9)"
  by (simp_all add: firstThrow_def throwSnowball_def aimingGame_facts Let_def sceneObjects_def
      aimingGame_def startAiming_def updateAimVisuals_def exampleGame_def setupCard_def
      constructed_def)

lemma firstThrow_timeAlive: "timeAlive (snowballObjs firstThrow 13) = 0"
  by (simp add: firstThrow_def throwSnowball_def aimingGame_facts Let_def sceneObjects_def)

lemma example_events: "ebody groundHit = 7" "ebody cardHit = 9"
  by (simp_all add: groundHit_def cardHit_def)

lemma despawned_facts:
  "snowballs despawned = []"
  "scene despawned = [0..<7] @ [8]"
  "worldBodies despawned = [7, 9, 10]"
  "nextId despawned = 14"
  by (simp_all add: despawned_def cleanupPhysics_def removeSnowball_def removeOne_def
      firstThrow_facts Let_def remove1_append)

lemma secondThrow_facts:
  "snowballs secondThrow = [16]"
  "mesh (snowballObjs secondThrow 16) = 14"
  "body (snowballObjs secondThrow 16) = 15"
  by (simp_all add: secondThrow_def throwSnowball_def startAiming_def updateAimVisuals_def
      Let_def despawned_facts)

lemma ndc_example:
  "ndcX exampleRect exampleClick = 0"
  "ndcY exampleRect exampleClick = 0"
  by (simp_all add: ndcX_def ndcY_def exampleRect_def exampleClick_def)

section \<open>The decal painter: lemmas\<close>

lemma addSnowSplat_returns:
  "cardObj st = Some (c, cb) \<Longrightarrow> \<exists>st'. addSnowSplat L p n st = Inr st'"
  by (simp add: addSnowSplat_def)

lemma mainCircle_inCanvas: "inCanvas cv (mainCircle r k cv p)"
  unfolding inCanvas_def mainCircle_def clamp01_def Let_def
  by (auto simp: mult_le_cancel_right1 max_def min_def mult_left_le_one_le)

lemma smallCircle_inCanvas: "inCanvas cv (smallCircle r k cv x y sz col i)"
  unfolding inCanvas_def smallCircle_def Let_def by simp

lemma length_splatCircles: "length (splatCircles r k p cv) = 6"
  unfolding splatCircles_def Let_def by simp

lemma paintSplat_size:
  "cwidth (paintSplat r k p cv) = cwidth cv"
  "cheight (paintSplat r k p cv) = cheight cv"
  by (simp_all add: paintSplat_def)

lemma newCircles_paintSplat: "newCircles cv (paintSplat r k p cv) = splatCircles r k p cv"
  by (simp add: newCircles_def paintSplat_def)

lemma newCircles_same: "newCircles cv cv = []"
  by (simp add: newCircles_def)

lemma inCanvas_cong:
  "cwidth a = cwidth b \<Longrightarrow> cheight a = cheight b \<Longrightarrow> inCanvas a = inCanvas b"
  by (auto simp: inCanvas_def fun_eq_iff)

lemma drawn_paintSplat_neq: "drawn (paintSplat r k p cv) \<noteq> drawn cv"
  by (simp add: paintSplat_def splatCircles_def Let_def)

lemma mainCircle_example:
  "centre (mainCircle r k (blankCanvas 512 768) (Vec3 (3 / 2) 0 0)) = (512, 384)"
  by (simp add: centre_def mainCircle_def blankCanvas_def Let_def clamp01_def splatU_def
      splatV_def)

lemma proportionalPixel_example:
  "proportionalPixel 4 6 (blankCanvas 512 768) (Vec3 (3 / 2) 0 0) = (448, 384)"
  by (simp add: proportionalPixel_def blankCanvas_def Let_def)

text \<open>
  With the card of game.js (3 x 4.5) the constants 1.5 and 2.25 of \<open>addSnowSplat\<close> are the
  half sizes of the geometry, and a point of the card face is painted at its proportional
  pixel.
\<close>

lemma mainCircle_proportional:
  assumes "\<bar>vx p\<bar> \<le> 1.5" "\<bar>vy p\<bar> \<le> 2.25"
  shows "centre (mainCircle r k cv p) = proportionalPixel 3 4.5 cv p"
proof -
  have "0 \<le> splatU p" "splatU p \<le> 1" "0 \<le> splatV p" "splatV p \<le> 1"
    using assms by (simp_all add: splatU_def splatV_def abs_le_iff field_simps)
  then show ?thesis
    by (simp add: centre_def mainCircle_def proportionalPixel_def Let_def clamp01_def
        splatU_def splatV_def)
qed

section \<open>The decal painter: claims\<close>

text \<open>
  C1.  The claim: the painter maps the card-local contact point to
  \<open>u = (x / halfCardWidth + 1) * 0.5\<close>, \<open>v = (y / halfCardHeight + 1) * 0.5\<close>, with the half
  sizes of the card geometry, and paints at \<open>(u * canvasWidth, (1 - v) * canvasHeight)\<close>, the
  proportionally corresponding pixel.  \<open>addSnowSplat\<close> divides by the constants 1.5 and 2.25;
  its comment says the card geometry extends from -1.5 to 1.5 and from -2.25 to 2.25.  That is
  the card of game.js (\<open>mainCircle_proportional\<close>).  In part_000 the card is 4 units wide:
  for an image of 512 x 768 pixels the geometry is 4 x 6, and a hit at local \<open>x = 1.5\<close>,
  \<open>y = 0\<close>, three quarters of the way to the right edge, is painted at pixel (512, 384), on
  the right edge of the canvas, where the proportional pixel is (448, 384).
\<close>

theorem addSnowSplat_part000_off_proportion:
  "cardObj (exampleGame Part000) = Some (15, 16) \<and>
   mgeom (meshes (exampleGame Part000) 15) = PlaneGeometry 4 6 \<and>
   (\<exists>st'. addSnowSplat exampleLibs (Vec3 (3 / 2) 0 0) (Vec3 0 0 (- 1)) (exampleGame Part000)
            = Inr st' \<and>
      map centre (take 1 (newCircles (snowCanvasFront (exampleGame Part000))
                            (snowCanvasFront st'))) = [(512, 384)]) \<and>
   proportionalPixel 4 6 (snowCanvasFront (exampleGame Part000)) (Vec3 (3 / 2) 0 0)
     = (448, 384)"
  by (simp add: exampleGame_card exampleGame_part000_geometry proportionalPixel_example
      exampleGame_canvas mainCircle_example addSnowSplat_def exampleGame_part000_hitFront
      newCircles_def paintSplat_def splatCircles_def Let_def)

text \<open>
  C8.  Whatever the card-local position handed to \<open>addSnowSplat\<close>, also one outside the card
  face, the call paints six circles on the canvas of the side that was hit, the main splat
  and five satellites, and the centre of each lies in the canvas:
  \<open>0 \<le> x \<le> width\<close> and \<open>0 \<le> y \<le> height\<close>.  The other canvas gets no circle.
\<close>

theorem addSnowSplat_centres_in_canvas:
  assumes "cardObj st = Some (c, cb)"
  shows "\<exists>st' m sats.
           addSnowSplat L p n st = Inr st' \<and>
           newCircles (snowCanvasFront st) (snowCanvasFront st')
             @ newCircles (snowCanvasBack st) (snowCanvasBack st') = m # sats \<and>
           length sats = 5 \<and>
           (\<forall>k \<in> set (newCircles (snowCanvasFront st) (snowCanvasFront st')).
              inCanvas (snowCanvasFront st') k) \<and>
           (\<forall>k \<in> set (newCircles (snowCanvasBack st) (snowCanvasBack st')).
              inCanvas (snowCanvasBack st') k)"
proof (cases "hitFront L (meshes st c) n")
  case True
  let ?cv = "snowCanvasFront st"
  let ?st' = "st\<lparr>snowCanvasFront := paintSplat (randoms st) (randIx st) p ?cv,
                  overlayFrontNeedsUpdate := True, randIx := randIx st + 17\<rparr>"
  have r: "addSnowSplat L p n st = Inr ?st'"
    using assms True by (simp add: addSnowSplat_def)
  have l: "length (splatCircles (randoms st) (randIx st) p ?cv) = 6"
    by (rule length_splatCircles)
  then obtain m sats where ms: "splatCircles (randoms st) (randIx st) p ?cv = m # sats"
    by (cases "splatCircles (randoms st) (randIx st) p ?cv") auto
  with l have "length sats = 5" by simp
  moreover have "\<forall>k \<in> set (splatCircles (randoms st) (randIx st) p ?cv). inCanvas ?cv k"
    by (auto simp: splatCircles_def Let_def mainCircle_inCanvas smallCircle_inCanvas)
  ultimately show ?thesis
    using r ms
    by (intro exI[of _ ?st'] exI[of _ m] exI[of _ sats])
       (simp add: newCircles_paintSplat newCircles_same inCanvas_cong[OF paintSplat_size])
next
  case False
  let ?cv = "snowCanvasBack st"
  let ?st' = "st\<lparr>snowCanvasBack := paintSplat (randoms st) (randIx st) p ?cv,
                  overlayBackNeedsUpdate := True, randIx := randIx st + 17\<rparr>"
  have r: "addSnowSplat L p n st = Inr ?st'"
    using assms False by (simp add: addSnowSplat_def)
  have l: "length (splatCircles (randoms st) (randIx st) p ?cv) = 6"
    by (rule length_splatCircles)
  then obtain m sats where ms: "splatCircles (randoms st) (randIx st) p ?cv = m # sats"
    by (cases "splatCircles (randoms st) (randIx st) p ?cv") auto
  with l have "length sats = 5" by simp
  moreover have "\<forall>k \<in> set (splatCircles (randoms st) (randIx st) p ?cv). inCanvas ?cv k"
    by (auto simp: splatCircles_def Let_def mainCircle_inCanvas smallCircle_inCanvas)
  ultimately show ?thesis
    using r ms
    by (intro exI[of _ ?st'] exI[of _ m] exI[of _ sats])
       (simp add: newCircles_paintSplat newCircles_same inCanvas_cong[OF paintSplat_size])
qed

theorem addSnowSplat_centres_in_canvas_witness:
  "cardObj (exampleGame GameJs) = Some (8, 9) \<and>
   (\<exists>st' m sats.
      addSnowSplat exampleLibs (Vec3 9 (- 9) 0) (Vec3 0 0 1) (exampleGame GameJs) = Inr st' \<and>
      newCircles (snowCanvasFront (exampleGame GameJs)) (snowCanvasFront st')
        @ newCircles (snowCanvasBack (exampleGame GameJs)) (snowCanvasBack st') = m # sats \<and>
      length sats = 5 \<and>
      (\<forall>k \<in> set (newCircles (snowCanvasFront (exampleGame GameJs)) (snowCanvasFront st')).
         inCanvas (snowCanvasFront st') k) \<and>
      (\<forall>k \<in> set (newCircles (snowCanvasBack (exampleGame GameJs)) (snowCanvasBack st')).
         inCanvas (snowCanvasBack st') k))"
proof -
  have h: "cardObj (exampleGame GameJs) = Some (8, 9)"
    by (rule exampleGame_card)
  show ?thesis
    using h addSnowSplat_centres_in_canvas [OF h, of exampleLibs "Vec3 9 (- 9) 0" "Vec3 0 0 1"]
    by simp
qed

lemma normalize_z_neg: "vz (normalize a) < 0 \<longleftrightarrow> vz a < 0"
proof -
  have "0 \<le> vlength a" by (simp add: vlength_def)
  then show ?thesis
    by (auto simp: normalize_def Let_def divide_less_0_iff)
qed

text \<open>
  C10.  \<open>addSnowSplat\<close> paints on the front canvas exactly when the contact normal, taken
  into the card's local frame (\<open>worldToLocal\<close> of the normal moved by the card position) and
  normalized, has a negative z component, and on the back canvas otherwise.  The canvas of
  the other side and the update flag of its overlay texture are what they were.
\<close>

theorem addSnowSplat_paints_one_side:
  assumes "cardObj st = Some (c, cb)"
  shows "\<exists>st'. addSnowSplat L p n st = Inr st' \<and>
     (let localNormal = normalize (worldToLocal L (mpos (meshes st c)) (mquat (meshes st c))
                                     (vadd n (mpos (meshes st c))))
      in (drawn (snowCanvasFront st') \<noteq> drawn (snowCanvasFront st) \<longleftrightarrow> vz localNormal < 0) \<and>
         (drawn (snowCanvasBack st') \<noteq> drawn (snowCanvasBack st) \<longleftrightarrow> \<not> vz localNormal < 0) \<and>
         (vz localNormal < 0 \<longrightarrow>
            snowCanvasFront st' = paintSplat (randoms st) (randIx st) p (snowCanvasFront st) \<and>
            overlayFrontNeedsUpdate st' \<and>
            snowCanvasBack st' = snowCanvasBack st \<and>
            overlayBackNeedsUpdate st' = overlayBackNeedsUpdate st) \<and>
         (\<not> vz localNormal < 0 \<longrightarrow>
            snowCanvasBack st' = paintSplat (randoms st) (randIx st) p (snowCanvasBack st) \<and>
            overlayBackNeedsUpdate st' \<and>
            snowCanvasFront st' = snowCanvasFront st \<and>
            overlayFrontNeedsUpdate st' = overlayFrontNeedsUpdate st))"
  using assms
  by (simp add: addSnowSplat_def hitFront_def Let_def drawn_paintSplat_neq)

lemma exampleGame_gamejs_normals:
  "vz (normalize (worldToLocal exampleLibs (mpos (meshes (exampleGame GameJs) 8))
         (mquat (meshes (exampleGame GameJs) 8))
         (vadd (Vec3 0 0 (- 1)) (mpos (meshes (exampleGame GameJs) 8))))) = - 1"
  "vz (normalize (worldToLocal exampleLibs (mpos (meshes (exampleGame GameJs) 8))
         (mquat (meshes (exampleGame GameJs) 8))
         (vadd (Vec3 0 0 1) (mpos (meshes (exampleGame GameJs) 8))))) = 1"
  by (simp_all add: exampleGame_def setupCard_def constructed_def sceneObjects_def Let_def
      exampleLibs_def vadd_def normalize_def vlength_def)

theorem addSnowSplat_paints_one_side_witness:
  "cardObj (exampleGame GameJs) = Some (8, 9) \<and>
   (\<exists>st'. addSnowSplat exampleLibs (Vec3 0 0 0) (Vec3 0 0 (- 1)) (exampleGame GameJs) = Inr st' \<and>
      drawn (snowCanvasFront st') \<noteq> drawn (snowCanvasFront (exampleGame GameJs)) \<and>
      snowCanvasBack st' = snowCanvasBack (exampleGame GameJs) \<and>
      overlayBackNeedsUpdate st' = overlayBackNeedsUpdate (exampleGame GameJs)) \<and>
   (\<exists>st'. addSnowSplat exampleLibs (Vec3 0 0 0) (Vec3 0 0 1) (exampleGame GameJs) = Inr st' \<and>
      drawn (snowCanvasBack st') \<noteq> drawn (snowCanvasBack (exampleGame GameJs)) \<and>
      snowCanvasFront st' = snowCanvasFront (exampleGame GameJs) \<and>
      overlayFrontNeedsUpdate st' = overlayFrontNeedsUpdate (exampleGame GameJs))"
proof -
  have h: "cardObj (exampleGame GameJs) = Some (8, 9)"
    by (rule exampleGame_card)
  show ?thesis
    using h
      addSnowSplat_paints_one_side [OF h, of exampleLibs "Vec3 0 0 0" "Vec3 0 0 (- 1)"]
      addSnowSplat_paints_one_side [OF h, of exampleLibs "Vec3 0 0 0" "Vec3 0 0 1"]
    by (auto simp: exampleGame_gamejs_normals Let_def)
qed

section \<open>Aiming and throwing: claims\<close>

lemma exampleGame_not_aiming: "\<not> isAiming (exampleGame rv)"
  by (simp add: exampleGame_def setupCard_def constructed_def Let_def)

lemma aimingGame_cannon:
  "cannonPosition (aimingGame rv) = Vec3 0 (- (3 / 2)) 4"
  "aimDirection exampleLibs (aimingGame rv) = Vec3 0 0 (- 1)"
  "currentPower (aimingGame rv) = 30"
  "sizeSlider (aimingGame rv) = 5"
  "snowballs (aimingGame rv) = []"
  by (simp_all add: aimingGame_def startAiming_def updateAimVisuals_def Let_def exampleGame_def
      setupCard_def constructed_def aimDirection_def exampleLibs_def)

lemma exampleGame_rect: "canvasRect (exampleGame rv) = exampleRect"
  by (simp add: exampleGame_def setupCard_def constructed_def Let_def)

lemma ndc_corner:
  "ndcX exampleRect cornerClick = 1"
  "ndcY exampleRect cornerClick = - 1"
  by (simp_all add: ndcX_def ndcY_def exampleRect_def cornerClick_def)

lemma elevation_at_bottom: "elevationAngle rv (- 1) = 0"
  by (cases rv) (simp_all add: elevationAngle_def)

lemma cornerAim_facts:
  "isAiming (startAiming GameJs threeLibs cornerClick (exampleGame GameJs))"
  "nextId (startAiming GameJs threeLibs cornerClick (exampleGame GameJs)) = 11"
  "snowballs (startAiming GameJs threeLibs cornerClick (exampleGame GameJs)) = []"
  "sizeSlider (startAiming GameJs threeLibs cornerClick (exampleGame GameJs)) = 5"
  "currentPower (startAiming GameJs threeLibs cornerClick (exampleGame GameJs)) = 30"
  "cannonPosition (startAiming GameJs threeLibs cornerClick (exampleGame GameJs))
     = Vec3 0 (- (3 / 2)) 4"
  "cannonRotation (startAiming GameJs threeLibs cornerClick (exampleGame GameJs))
     = [RotateY (- (pi / 2)), RotateX 0]"
  by (simp_all add: startAiming_def updateAimVisuals_def Let_def exampleGame_rect ndc_corner
      azimuthAngle_def elevation_at_bottom)
     (simp_all add: exampleGame_def setupCard_def constructed_def sceneObjects_def Let_def)

lemma cornerAim_direction:
  "applyEuler threeLibs [RotateY (- (pi / 2)), RotateX 0] (Vec3 0 0 (- 1)) = Vec3 1 0 0"
  by (simp add: threeLibs_def)

text \<open>
  C3.  A mouseup while aiming spawns exactly one snowball: one new entry of \<open>snowballs\<close>,
  whose mesh is the one new child of the scene and whose body is the one new body of the
  world.  Mesh and body are spheres of the same radius, the size slider's value times 0.2
  in game.js and times 0.1 in part_000.  Both start at the cannon position plus 0.5 times
  the aim direction, which is the vector \<open>(0, 0, -1)\<close> turned by the rotation of the cannon
  (\<open>applyEuler\<close>); the body is dynamic and its velocity is that direction times
  \<open>currentPower * 0.5\<close>.  A mouseup while not aiming changes nothing.
\<close>

theorem throwSnowball_spawns_paired_snowball:
  "(isAiming st \<longrightarrow>
      (let st' = throwSnowball rv L st;
           s = nextId st + 2;
           sb = snowballObjs st' s;
           m = meshes st' (mesh sb);
           b = bodies st' (body sb);
           d = applyEuler L (cannonRotation st) (Vec3 0 0 (- 1));
           p = cannonPosition st;
           r = (case rv of GameJs \<Rightarrow> sizeSlider st * 0.2 | Part000 \<Rightarrow> sizeSlider st * 0.1)
       in snowballs st' = snowballs st @ [s] \<and>
          scene st' = scene st @ [mesh sb] \<and>
          worldBodies st' = worldBodies st @ [body sb] \<and>
          mgeom m = SphereGeometry r \<and>
          bshape b = Sphere r \<and>
          btype b = DYNAMIC \<and>
          mpos m = Vec3 (vx p + vx d * 0.5) (vy p + vy d * 0.5) (vz p + vz d * 0.5) \<and>
          bpos b = mpos m \<and>
          bvel b = Vec3 (vx d * (currentPower st * 0.5)) (vy d * (currentPower st * 0.5))
                        (vz d * (currentPower st * 0.5)) \<and>
          timeAlive sb = 0 \<and> \<not> isCollided sb \<and> \<not> isAiming st')) \<and>
   (\<not> isAiming st \<longrightarrow> throwSnowball rv L st = st)"
proof (cases rv)
  case GameJs
  then show ?thesis
    by (simp add: throwSnowball_def Let_def multiplyScalar_def vadd_def aimDirection_def
        snowballSize_def)
next
  case Part000
  then show ?thesis
    by (simp add: throwSnowball_def Let_def multiplyScalar_def vadd_def aimDirection_def
        snowballSize_def)
qed

theorem throwSnowball_spawns_paired_snowball_witness:
  "isAiming (startAiming GameJs threeLibs cornerClick (exampleGame GameJs)) \<and>
   cannonRotation (startAiming GameJs threeLibs cornerClick (exampleGame GameJs))
     = [RotateY (- (pi / 2)), RotateX 0] \<and>
   (let st' = throwSnowball GameJs threeLibs
                (startAiming GameJs threeLibs cornerClick (exampleGame GameJs));
        sb = snowballObjs st' 13
    in snowballs st' = [13] \<and>
       mgeom (meshes st' (mesh sb)) = SphereGeometry 1 \<and>
       bshape (bodies st' (body sb)) = Sphere 1 \<and>
       mpos (meshes st' (mesh sb)) = Vec3 (1 / 2) (- (3 / 2)) 4 \<and>
       bpos (bodies st' (body sb)) = Vec3 (1 / 2) (- (3 / 2)) 4 \<and>
       bvel (bodies st' (body sb)) = Vec3 15 0 0) \<and>
   \<not> isAiming (exampleGame Part000) \<and>
   throwSnowball Part000 exampleLibs (exampleGame Part000) = exampleGame Part000"
proof -
  have h: "isAiming (startAiming GameJs threeLibs cornerClick (exampleGame GameJs))"
    by (rule cornerAim_facts)
  have n: "\<not> isAiming (exampleGame Part000)"
    by (rule exampleGame_not_aiming)
  show ?thesis
    using h n
      throwSnowball_spawns_paired_snowball
        [where st = "startAiming GameJs threeLibs cornerClick (exampleGame GameJs)"
           and rv = GameJs and L = threeLibs]
      throwSnowball_spawns_paired_snowball
        [where st = "exampleGame Part000" and rv = Part000 and L = exampleLibs]
    by (simp add: Let_def cornerAim_facts cornerAim_direction)
qed

lemma azimuth_bounds:
  assumes "- 1 \<le> x" "x \<le> 1"
  shows "- (pi / 2) \<le> azimuthAngle x \<and> azimuthAngle x \<le> pi / 2"
proof -
  have "- x * pi \<le> 1 * pi" "(- 1) * pi \<le> - x * pi"
    using assms by (intro mult_right_mono; simp)+
  then show ?thesis by (simp add: azimuthAngle_def)
qed

lemma elevation_bounds:
  assumes "- 1 \<le> y" "y \<le> 1"
  shows "0 \<le> elevationAngle rv y \<and> elevationAngle rv y \<le> pi / 2"
proof (cases rv)
  case GameJs
  have "0 \<le> pi / 2" by simp
  then have "0 \<le> max 0 (min (pi / 2) ((y + 1) * pi / 2)) \<and>
             max 0 (min (pi / 2) ((y + 1) * pi / 2)) \<le> pi / 2"
    unfolding max_def min_def by simp
  with GameJs show ?thesis by (simp only: elevationAngle_def revision.case)
next
  case Part000
  have "0 * pi \<le> (y + 1) * pi" "(y + 1) * pi \<le> 2 * pi"
    using assms by (intro mult_right_mono; simp)+
  with Part000 show ?thesis by (simp add: elevationAngle_def)
qed

lemma updateAimVisuals_rotation:
  "isAiming st \<Longrightarrow>
   cannonRotation (updateAimVisuals rv L ev st)
     = [RotateY (azimuthAngle (ndcX (canvasRect st) ev)),
        RotateX (- elevationAngle rv (ndcY (canvasRect st) ev))]"
  by (simp add: updateAimVisuals_def Let_def)

text \<open>
  What the aiming does hold: a mousedown, and a mousemove while aiming, turn the cannon
  about Y by \<open>- x * pi / 2\<close> and about X by minus the elevation angle of the revision, where
  \<open>x\<close> and \<open>y\<close> are the normalized coordinates of the event; for \<open>x\<close>, \<open>y\<close> in \<open>[-1, 1]\<close> the
  first angle lies in \<open>[- pi / 2, pi / 2]\<close> and the elevation angle in \<open>[0, pi / 2]\<close>.  While
  not aiming, \<open>updateAiming\<close> and \<open>updateAimVisuals\<close> change nothing.
\<close>

lemma aiming_rotation:
  "cannonRotation (startAiming rv L ev st)
     = [RotateY (- (((clientX ev - rleft (canvasRect st)) / rwidth (canvasRect st)) * 2 - 1)
                  * pi / 2),
        RotateX (- (case rv of
                      GameJs \<Rightarrow>
                        max 0 (min (pi / 2)
                          ((- ((clientY ev - rtop (canvasRect st)) / rheight (canvasRect st)) * 2
                            + 1 + 1) * pi / 2))
                    | Part000 \<Rightarrow>
                        (- ((clientY ev - rtop (canvasRect st)) / rheight (canvasRect st)) * 2
                          + 1 + 1) * pi / 4))]"
  "isAiming st \<Longrightarrow>
   cannonRotation (updateAiming rv L ev st) = cannonRotation (startAiming rv L ev st)"
  "isAiming st \<Longrightarrow>
   cannonRotation (updateAimVisuals rv L ev st) = cannonRotation (startAiming rv L ev st)"
proof -
  have r: "cannonRotation (startAiming rv L ev st)
             = [RotateY (azimuthAngle (ndcX (canvasRect st) ev)),
                RotateX (- elevationAngle rv (ndcY (canvasRect st) ev))]"
    by (simp add: startAiming_def updateAimVisuals_rotation)
  show "cannonRotation (startAiming rv L ev st)
     = [RotateY (- (((clientX ev - rleft (canvasRect st)) / rwidth (canvasRect st)) * 2 - 1)
                  * pi / 2),
        RotateX (- (case rv of
                      GameJs \<Rightarrow>
                        max 0 (min (pi / 2)
                          ((- ((clientY ev - rtop (canvasRect st)) / rheight (canvasRect st)) * 2
                            + 1 + 1) * pi / 2))
                    | Part000 \<Rightarrow>
                        (- ((clientY ev - rtop (canvasRect st)) / rheight (canvasRect st)) * 2
                          + 1 + 1) * pi / 4))]"
    by (simp only: r azimuthAngle_def elevationAngle_def ndcX_def ndcY_def)
  show "cannonRotation (updateAiming rv L ev st) = cannonRotation (startAiming rv L ev st)"
    if "isAiming st"
    using that by (simp add: r updateAiming_def updateAimVisuals_rotation)
  show "cannonRotation (updateAimVisuals rv L ev st) = cannonRotation (startAiming rv L ev st)"
    if "isAiming st"
    using that by (simp add: r updateAimVisuals_rotation)
qed

lemma aiming_idle:
  assumes "\<not> isAiming st"
  shows "updateAiming rv L ev st = st" "updateAimVisuals rv L ev st = st"
  using assms by (simp_all add: updateAiming_def updateAimVisuals_def)

text \<open>
  With the rotations of three.js the aim direction, along which the aim line is drawn and
  the snowball thrown, never rises: its y component is minus the sine of the elevation
  angle.
\<close>

lemma three_aim_direction:
  "aimDirection threeLibs (startAiming rv threeLibs ev st)
     = Vec3 (- cos (elevationAngle rv (ndcY (canvasRect st) ev))
               * sin (azimuthAngle (ndcX (canvasRect st) ev)))
            (- sin (elevationAngle rv (ndcY (canvasRect st) ev)))
            (- cos (elevationAngle rv (ndcY (canvasRect st) ev))
               * cos (azimuthAngle (ndcX (canvasRect st) ev)))"
  by (simp add: aimDirection_def startAiming_def updateAimVisuals_rotation threeLibs_def)

lemma three_aim_never_rises:
  assumes "- 1 \<le> ndcY (canvasRect st) ev" "ndcY (canvasRect st) ev \<le> 1"
  shows "vy (aimDirection threeLibs (startAiming rv threeLibs ev st)) \<le> 0"
proof -
  from elevation_bounds[OF assms, of rv]
  have "0 \<le> elevationAngle rv (ndcY (canvasRect st) ev)"
    and "elevationAngle rv (ndcY (canvasRect st) ev) \<le> pi"
    using pi_ge_zero by (simp_all add: field_simps)
  then have "0 \<le> sin (elevationAngle rv (ndcY (canvasRect st) ev))"
    by (rule sin_ge_zero)
  then show ?thesis by (simp add: three_aim_direction)
qed






section \<open>The collide listener: lemmas\<close>

lemma onCollide_other_body:
  "(\<forall>c cb. cardObj st = Some (c, cb) \<longrightarrow> ebody e \<noteq> cb) \<Longrightarrow> onCollide L s e st = st"
  by (auto simp: onCollide_def split: option.splits)

lemma onCollide_collided:
  "isCollided (snowballObjs st s) \<Longrightarrow> onCollide L s e st = st"
  by (auto simp: onCollide_def split: option.splits)

lemma onCollide_first_hit:
  assumes "cardObj st = Some (c, cb)" "ebody e = cb" "\<not> isCollided (snowballObjs st s)"
  shows "isCollided (snowballObjs (onCollide L s e st) s)"
    and "s \<in> set (toRemove (onCollide L s e st))"
    and "circleCount (onCollide L s e st) = circleCount st + 6"
  using assms
  by (auto simp: onCollide_def addSnowSplat_def removeSnowball_def Let_def circleCount_def
      paintSplat_def length_splatCircles)

lemma onCollide_cases:
  "onCollide L s e st = st \<or>
   (isCollided (snowballObjs (onCollide L s e st) s) \<and>
    circleCount (onCollide L s e st) = circleCount st + 6)"
proof (cases "\<exists>c cb. cardObj st = Some (c, cb) \<and> ebody e = cb \<and> \<not> isCollided (snowballObjs st s)")
  case True
  then show ?thesis using onCollide_first_hit[of st _ _ e s L] by blast
next
  case False
  then have "onCollide L s e st = st"
    by (auto simp: onCollide_def split: option.splits)
  then show ?thesis by simp
qed

lemma collideAll_collided:
  "isCollided (snowballObjs st s) \<Longrightarrow> collideAll L s es st = st"
  by (induction es arbitrary: st) (simp_all add: onCollide_collided)

lemma collideAll_count: "circleCount (collideAll L s es st) \<le> circleCount st + 6"
proof (induction es arbitrary: st)
  case Nil
  then show ?case by simp
next
  case (Cons e es)
  from onCollide_cases[of L s e st] show ?case
  proof
    assume "onCollide L s e st = st"
    then show ?thesis using Cons.IH[of st] by simp
  next
    assume "isCollided (snowballObjs (onCollide L s e st) s) \<and>
      circleCount (onCollide L s e st) = circleCount st + 6"
    then show ?thesis by (simp add: collideAll_collided)
  qed
qed

section \<open>Allocation of snowballs\<close>

text \<open>
  C7.  The claim: snowballs are pooled, so that a later throw reuses the mesh and the body
  of a despawned snowball.  In the run \<open>firstThrow\<close>, \<open>despawned\<close>, \<open>secondThrow\<close> of game.js
  the first snowball (13) is despawned before the second throw, and the second snowball
  (16) has neither the mesh nor the body of the first.
\<close>

theorem second_throw_reuses_nothing:
  "snowballs firstThrow = [13] \<and> snowballs despawned = [] \<and> snowballs secondThrow = [16] \<and>
   \<not> (mesh (snowballObjs secondThrow 16) = mesh (snowballObjs firstThrow 13) \<or>
      body (snowballObjs secondThrow 16) = body (snowballObjs firstThrow 13))"
  by (simp add: firstThrow_facts despawned_facts secondThrow_facts)

section \<open>Deferred removal: lemmas\<close>

lemma removeSnowball_frame [simp]:
  "nextId (removeSnowball s st) = nextId st"
  "meshes (removeSnowball s st) = meshes st"
  "bodies (removeSnowball s st) = bodies st"
  "snowballObjs (removeSnowball s st) = snowballObjs st"
  "scene (removeSnowball s st) = scene st"
  "worldBodies (removeSnowball s st) = worldBodies st"
  "snowballs (removeSnowball s st) = snowballs st"
  "collideListeners (removeSnowball s st) = collideListeners st"
  "cardObj (removeSnowball s st) = cardObj st"
  "snowCanvasFront (removeSnowball s st) = snowCanvasFront st"
  "snowCanvasBack (removeSnowball s st) = snowCanvasBack st"
  "rendered (removeSnowball s st) = rendered st"
  by (simp_all add: removeSnowball_def)

lemma set_toRemove_removeSnowball [simp]:
  "set (toRemove (removeSnowball s st)) = insert s (set (toRemove st))"
  by (auto simp: removeSnowball_def)

lemma removeOne_frame [simp]:
  "nextId (removeOne s st) = nextId st"
  "meshes (removeOne s st) = meshes st"
  "bodies (removeOne s st) = bodies st"
  "snowballObjs (removeOne s st) = snowballObjs st"
  "toRemove (removeOne s st) = toRemove st"
  "collideListeners (removeOne s st) = collideListeners st"
  "cardObj (removeOne s st) = cardObj st"
  "scene (removeOne s st) = remove1 (mesh (snowballObjs st s)) (scene st)"
  "worldBodies (removeOne s st) = remove1 (body (snowballObjs st s)) (worldBodies st)"
  "snowballs (removeOne s st) = remove1 s (snowballs st)"
  by (simp_all add: removeOne_def Let_def remove1_idem)

lemma processRemovals_frame [simp]:
  "nextId (processRemovals rs st) = nextId st"
  "meshes (processRemovals rs st) = meshes st"
  "bodies (processRemovals rs st) = bodies st"
  "snowballObjs (processRemovals rs st) = snowballObjs st"
  "toRemove (processRemovals rs st) = toRemove st"
  "collideListeners (processRemovals rs st) = collideListeners st"
  "cardObj (processRemovals rs st) = cardObj st"
  by (induction rs arbitrary: st; simp)+

lemma remove1_filter: "distinct xs \<Longrightarrow> remove1 x xs = filter (\<lambda>y. y \<noteq> x) xs"
  by (induction xs) (auto intro: filter_True[symmetric])

lemma processRemovals_snowballs:
  "distinct (snowballs st) \<Longrightarrow>
   snowballs (processRemovals rs st) = filter (\<lambda>s. s \<notin> set rs) (snowballs st)"
proof (induction rs arbitrary: st)
  case Nil
  then show ?case by simp
next
  case (Cons r rs)
  have "snowballs (processRemovals rs (removeOne r st))
          = filter (\<lambda>s. s \<notin> set rs) (remove1 r (snowballs st))"
    using Cons.IH[of "removeOne r st"] Cons.prems by simp
  also have "\<dots> = filter (\<lambda>s. s \<notin> set (r # rs)) (snowballs st)"
    using Cons.prems by (auto simp: remove1_filter intro: filter_cong)
  finally show ?case by simp
qed

lemma processRemovals_scene:
  "distinct (scene st) \<Longrightarrow>
   scene (processRemovals rs st)
     = filter (\<lambda>m. m \<notin> (\<lambda>s. mesh (snowballObjs st s)) ` set rs) (scene st)"
proof (induction rs arbitrary: st)
  case Nil
  then show ?case by simp
next
  case (Cons r rs)
  have "scene (processRemovals rs (removeOne r st))
          = filter (\<lambda>m. m \<notin> (\<lambda>s. mesh (snowballObjs st s)) ` set rs)
              (remove1 (mesh (snowballObjs st r)) (scene st))"
    using Cons.IH[of "removeOne r st"] Cons.prems by simp
  also have "\<dots> = filter (\<lambda>m. m \<notin> (\<lambda>s. mesh (snowballObjs st s)) ` set (r # rs)) (scene st)"
    using Cons.prems by (auto simp: remove1_filter intro: filter_cong)
  finally show ?case by simp
qed

lemma processRemovals_worldBodies:
  "distinct (worldBodies st) \<Longrightarrow>
   worldBodies (processRemovals rs st)
     = filter (\<lambda>b. b \<notin> (\<lambda>s. body (snowballObjs st s)) ` set rs) (worldBodies st)"
proof (induction rs arbitrary: st)
  case Nil
  then show ?case by simp
next
  case (Cons r rs)
  have "worldBodies (processRemovals rs (removeOne r st))
          = filter (\<lambda>b. b \<notin> (\<lambda>s. body (snowballObjs st s)) ` set rs)
              (remove1 (body (snowballObjs st r)) (worldBodies st))"
    using Cons.IH[of "removeOne r st"] Cons.prems by simp
  also have "\<dots> = filter (\<lambda>b. b \<notin> (\<lambda>s. body (snowballObjs st s)) ` set (r # rs))
                      (worldBodies st)"
    using Cons.prems by (auto simp: remove1_filter intro: filter_cong)
  finally show ?case by simp
qed

lemma processRemovals_subsets:
  "set (scene (processRemovals rs st)) \<subseteq> set (scene st)"
  "set (worldBodies (processRemovals rs st)) \<subseteq> set (worldBodies st)"
  "set (snowballs (processRemovals rs st)) \<subseteq> set (snowballs st)"
proof (induction rs arbitrary: st)
  case Nil
  { case 1 show ?case by simp }
  { case 2 show ?case by simp }
  { case 3 show ?case by simp }
next
  case (Cons r rs)
  { case 1 show ?case using Cons(1)[of "removeOne r st"] set_remove1_subset by fastforce }
  { case 2 show ?case using Cons(2)[of "removeOne r st"] set_remove1_subset by fastforce }
  { case 3 show ?case using Cons(3)[of "removeOne r st"] set_remove1_subset by fastforce }
qed

lemma cleanupPhysics_frame [simp]:
  "nextId (cleanupPhysics st) = nextId st"
  "meshes (cleanupPhysics st) = meshes st"
  "bodies (cleanupPhysics st) = bodies st"
  "snowballObjs (cleanupPhysics st) = snowballObjs st"
  "toRemove (cleanupPhysics st) = []"
  "collideListeners (cleanupPhysics st) = collideListeners st"
  "cardObj (cleanupPhysics st) = cardObj st"
  by (simp_all add: cleanupPhysics_def)

lemma cleanupPhysics_lists:
  "distinct (snowballs st) \<Longrightarrow>
     snowballs (cleanupPhysics st) = filter (\<lambda>s. s \<notin> set (toRemove st)) (snowballs st)"
  "distinct (scene st) \<Longrightarrow>
     scene (cleanupPhysics st)
       = filter (\<lambda>m. m \<notin> (\<lambda>s. mesh (snowballObjs st s)) ` set (toRemove st)) (scene st)"
  "distinct (worldBodies st) \<Longrightarrow>
     worldBodies (cleanupPhysics st)
       = filter (\<lambda>b. b \<notin> (\<lambda>s. body (snowballObjs st s)) ` set (toRemove st)) (worldBodies st)"
  by (simp_all add: cleanupPhysics_def processRemovals_snowballs processRemovals_scene
      processRemovals_worldBodies)

lemma cleanupPhysics_subsets:
  "set (scene (cleanupPhysics st)) \<subseteq> set (scene st)"
  "set (worldBodies (cleanupPhysics st)) \<subseteq> set (worldBodies st)"
  "set (snowballs (cleanupPhysics st)) \<subseteq> set (snowballs st)"
  using processRemovals_subsets[of "toRemove st" st] by (simp_all add: cleanupPhysics_def)

section \<open>The collide listener and the world step: what they leave alone\<close>

lemma onCollide_frame [simp]:
  "nextId (onCollide L s e st) = nextId st"
  "meshes (onCollide L s e st) = meshes st"
  "bodies (onCollide L s e st) = bodies st"
  "scene (onCollide L s e st) = scene st"
  "worldBodies (onCollide L s e st) = worldBodies st"
  "snowballs (onCollide L s e st) = snowballs st"
  "collideListeners (onCollide L s e st) = collideListeners st"
  "cardObj (onCollide L s e st) = cardObj st"
  "rendered (onCollide L s e st) = rendered st"
  by (simp_all add: onCollide_def addSnowSplat_def Let_def split: option.splits)

lemma onCollide_ids [simp]:
  "mesh (snowballObjs (onCollide L s e st) x) = mesh (snowballObjs st x)"
  "body (snowballObjs (onCollide L s e st) x) = body (snowballObjs st x)"
  "timeAlive (snowballObjs (onCollide L s e st) x) = timeAlive (snowballObjs st x)"
  by (simp_all add: onCollide_def addSnowSplat_def Let_def split: option.splits)

lemma onCollide_toRemove:
  "set (toRemove st) \<subseteq> set (toRemove (onCollide L s e st))"
  "set (toRemove (onCollide L s e st)) \<subseteq> insert s (set (toRemove st))"
  by (auto simp: onCollide_def addSnowSplat_def Let_def split: option.splits if_splits)

lemma dispatchCollide_frame [simp]:
  "nextId (dispatchCollide L evs st) = nextId st"
  "meshes (dispatchCollide L evs st) = meshes st"
  "scene (dispatchCollide L evs st) = scene st"
  "worldBodies (dispatchCollide L evs st) = worldBodies st"
  "snowballs (dispatchCollide L evs st) = snowballs st"
  "collideListeners (dispatchCollide L evs st) = collideListeners st"
  "cardObj (dispatchCollide L evs st) = cardObj st"
  "rendered (dispatchCollide L evs st) = rendered st"
  by (induction L evs st rule: dispatchCollide.induct; simp split: option.splits)+

lemma dispatchCollide_ids [simp]:
  "mesh (snowballObjs (dispatchCollide L evs st) x) = mesh (snowballObjs st x)"
  "body (snowballObjs (dispatchCollide L evs st) x) = body (snowballObjs st x)"
  "timeAlive (snowballObjs (dispatchCollide L evs st) x) = timeAlive (snowballObjs st x)"
  by (induction L evs st rule: dispatchCollide.induct; simp split: option.splits)+

lemma dispatchCollide_toRemove_mono:
  "set (toRemove st) \<subseteq> set (toRemove (dispatchCollide L evs st))"
proof (induction L evs st rule: dispatchCollide.induct)
  case (1 L st)
  then show ?case by simp
next
  case (2 L bs b e evs st)
  then show ?case
    using onCollide_toRemove(1) by (fastforce split: option.splits)
qed

lemma dispatchCollide_toRemove_new:
  "x \<in> set (toRemove (dispatchCollide L evs st)) \<Longrightarrow>
   x \<in> set (toRemove st) \<or> (\<exists>b. collideListeners st b = Some x)"
proof (induction L evs st arbitrary: x rule: dispatchCollide.induct)
  case (1 L st)
  then show ?case by simp
next
  case (2 L bs b e evs st)
  show ?case
  proof (cases "collideListeners st b")
    case None
    with 2 show ?thesis by simp
  next
    case (Some s)
    with 2 have "x \<in> set (toRemove (onCollide L s e (st\<lparr>bodies := bs\<rparr>))) \<or>
                 (\<exists>b. collideListeners st b = Some x)"
      by simp
    then show ?thesis
      using onCollide_toRemove(2)[of L s e "st\<lparr>bodies := bs\<rparr>"] Some by auto
  qed
qed

lemma afterStep_frame [simp]:
  "nextId (afterStep L st) = nextId st"
  "meshes (afterStep L st) = meshes st"
  "scene (afterStep L st) = scene st"
  "worldBodies (afterStep L st) = worldBodies st"
  "snowballs (afterStep L st) = snowballs st"
  "collideListeners (afterStep L st) = collideListeners st"
  "cardObj (afterStep L st) = cardObj st"
  "rendered (afterStep L st) = rendered st"
  "bodies (afterStep L st) = newBodies (step L (1 / 60) (1 / 60) 3 st)"
  "mesh (snowballObjs (afterStep L st) x) = mesh (snowballObjs st x)"
  "body (snowballObjs (afterStep L st) x) = body (snowballObjs st x)"
  "timeAlive (snowballObjs (afterStep L st) x) = timeAlive (snowballObjs st x)"
  by (simp_all add: afterStep_def Let_def)

lemma afterStep_toRemove:
  "set (toRemove st) \<subseteq> set (toRemove (afterStep L st))"
  "x \<in> set (toRemove (afterStep L st)) \<Longrightarrow>
     x \<in> set (toRemove st) \<or> (\<exists>b. collideListeners st b = Some x)"
  using dispatchCollide_toRemove_mono dispatchCollide_toRemove_new
  by (simp_all add: afterStep_def Let_def)

text \<open>A snowball that a listener marks for removal has hit the card.\<close>

lemma onCollide_isCollided:
  "isCollided (snowballObjs st x) \<Longrightarrow> isCollided (snowballObjs (onCollide L s e st) x)"
  by (simp add: onCollide_def addSnowSplat_def Let_def split: option.splits)

lemma dispatchCollide_isCollided:
  "isCollided (snowballObjs st x) \<Longrightarrow> isCollided (snowballObjs (dispatchCollide L evs st) x)"
  by (induction L evs st rule: dispatchCollide.induct)
     (simp_all add: onCollide_isCollided split: option.splits)

lemma onCollide_marks:
  "x \<in> set (toRemove (onCollide L s e st)) \<Longrightarrow>
   x \<in> set (toRemove st) \<or> isCollided (snowballObjs (onCollide L s e st) x)"
  by (auto simp: onCollide_def addSnowSplat_def Let_def split: option.splits if_splits)

lemma dispatchCollide_marks:
  "x \<in> set (toRemove (dispatchCollide L evs st)) \<Longrightarrow>
   x \<in> set (toRemove st) \<or> isCollided (snowballObjs (dispatchCollide L evs st) x)"
proof (induction L evs st rule: dispatchCollide.induct)
  case (1 L st)
  then show ?case by simp
next
  case (2 L bs b e evs st)
  show ?case
  proof (cases "collideListeners st b")
    case None
    with 2 show ?thesis by simp
  next
    case (Some s)
    let ?st1 = "onCollide L s e (st\<lparr>bodies := bs\<rparr>)"
    from 2 Some have "x \<in> set (toRemove ?st1) \<or>
                      isCollided (snowballObjs (dispatchCollide L evs ?st1) x)"
      by simp
    then show ?thesis
    proof
      assume "x \<in> set (toRemove ?st1)"
      then have "x \<in> set (toRemove st) \<or> isCollided (snowballObjs ?st1 x)"
        using onCollide_marks[of x L s e "st\<lparr>bodies := bs\<rparr>"] by simp
      then show ?thesis
        using dispatchCollide_isCollided[of ?st1 x L evs] Some by auto
    next
      assume "isCollided (snowballObjs (dispatchCollide L evs ?st1) x)"
      then show ?thesis using Some by simp
    qed
  qed
qed

lemma afterStep_marks:
  "x \<in> set (toRemove (afterStep L st)) \<Longrightarrow>
   x \<in> set (toRemove st) \<or> isCollided (snowballObjs (afterStep L st) x)"
  using dispatchCollide_marks[of x L "collisions (step L (1 / 60) (1 / 60) 3 st)" st]
  by (simp add: afterStep_def Let_def)

section \<open>The animation frame: lemmas\<close>

lemma syncCard_frame [simp]:
  "nextId (syncCard st) = nextId st"
  "bodies (syncCard st) = bodies st"
  "snowballObjs (syncCard st) = snowballObjs st"
  "scene (syncCard st) = scene st"
  "worldBodies (syncCard st) = worldBodies st"
  "snowballs (syncCard st) = snowballs st"
  "toRemove (syncCard st) = toRemove st"
  "collideListeners (syncCard st) = collideListeners st"
  "cardObj (syncCard st) = cardObj st"
  by (simp_all add: syncCard_def split: option.splits)

lemma syncCard_card:
  "cardObj st = Some (c, cb) \<Longrightarrow>
   mpos (meshes (syncCard st) c) = bpos (bodies st cb) \<and>
   mquat (meshes (syncCard st) c) = bquat (bodies st cb)"
  by (simp add: syncCard_def)

lemma render_frame [simp]:
  "nextId (render st) = nextId st"
  "meshes (render st) = meshes st"
  "bodies (render st) = bodies st"
  "snowballObjs (render st) = snowballObjs st"
  "scene (render st) = scene st"
  "worldBodies (render st) = worldBodies st"
  "snowballs (render st) = snowballs st"
  "toRemove (render st) = toRemove st"
  "collideListeners (render st) = collideListeners st"
  "cardObj (render st) = cardObj st"
  "rendered (render st) = Some \<lparr>fscene = scene st, fmeshes = meshes st\<rparr>"
  by (simp_all add: render_def)

lemma updateSnowball_frame [simp]:
  "nextId (updateSnowball dt s st) = nextId st"
  "bodies (updateSnowball dt s st) = bodies st"
  "scene (updateSnowball dt s st) = scene st"
  "worldBodies (updateSnowball dt s st) = worldBodies st"
  "snowballs (updateSnowball dt s st) = snowballs st"
  "collideListeners (updateSnowball dt s st) = collideListeners st"
  "cardObj (updateSnowball dt s st) = cardObj st"
  by (simp_all add: updateSnowball_def Let_def)

lemma updateSnowball_ids [simp]:
  "mesh (snowballObjs (updateSnowball dt s st) x) = mesh (snowballObjs st x)"
  "body (snowballObjs (updateSnowball dt s st) x) = body (snowballObjs st x)"
  "isCollided (snowballObjs (updateSnowball dt s st) x) = isCollided (snowballObjs st x)"
  by (simp_all add: updateSnowball_def Let_def)

lemma updateSnowball_other:
  "x \<noteq> s \<Longrightarrow> snowballObjs (updateSnowball dt s st) x = snowballObjs st x"
  "x \<noteq> s \<Longrightarrow> x \<in> set (toRemove (updateSnowball dt s st)) \<longleftrightarrow> x \<in> set (toRemove st)"
  by (simp_all add: updateSnowball_def Let_def)

lemma updateSnowball_meshes_other:
  "m \<noteq> mesh (snowballObjs st s) \<Longrightarrow> meshes (updateSnowball dt s st) m = meshes st m"
  by (simp add: updateSnowball_def Let_def)

lemma updateSnowball_toRemove:
  "set (toRemove st) \<subseteq> set (toRemove (updateSnowball dt s st))"
  "set (toRemove (updateSnowball dt s st)) \<subseteq> insert s (set (toRemove st))"
  by (auto simp: updateSnowball_def Let_def)

lemma updateSnowball_at:
  assumes "body (snowballObjs st s) \<in> set (worldBodies st)" "s \<notin> set (toRemove st)"
  shows "timeAlive (snowballObjs (updateSnowball dt s st) s) = timeAlive (snowballObjs st s) + dt"
    and "meshes (updateSnowball dt s st) (mesh (snowballObjs st s))
           = (meshes st (mesh (snowballObjs st s)))
               \<lparr>mpos := bpos (bodies st (body (snowballObjs st s))),
                mquat := bquat (bodies st (body (snowballObjs st s)))\<rparr>"
    and "s \<in> set (toRemove (updateSnowball dt s st)) \<longleftrightarrow>
           timeAlive (snowballObjs st s) + dt > 5 \<or>
           vy (bpos (bodies st (body (snowballObjs st s)))) < - 3"
  using assms by (simp_all add: updateSnowball_def Let_def)

lemma updateSnowballs_frame [simp]:
  "nextId (updateSnowballs dt ss st) = nextId st"
  "bodies (updateSnowballs dt ss st) = bodies st"
  "scene (updateSnowballs dt ss st) = scene st"
  "worldBodies (updateSnowballs dt ss st) = worldBodies st"
  "snowballs (updateSnowballs dt ss st) = snowballs st"
  "collideListeners (updateSnowballs dt ss st) = collideListeners st"
  "cardObj (updateSnowballs dt ss st) = cardObj st"
  by (induction ss arbitrary: st; simp)+

lemma updateSnowballs_ids [simp]:
  "mesh (snowballObjs (updateSnowballs dt ss st) x) = mesh (snowballObjs st x)"
  "body (snowballObjs (updateSnowballs dt ss st) x) = body (snowballObjs st x)"
  "isCollided (snowballObjs (updateSnowballs dt ss st) x) = isCollided (snowballObjs st x)"
  by (induction ss arbitrary: st; simp)+

lemma updateSnowballs_other:
  "x \<notin> set ss \<Longrightarrow> snowballObjs (updateSnowballs dt ss st) x = snowballObjs st x"
  "x \<notin> set ss \<Longrightarrow> x \<in> set (toRemove (updateSnowballs dt ss st)) \<longleftrightarrow> x \<in> set (toRemove st)"
  by (induction ss arbitrary: st; simp add: updateSnowball_other)+

lemma updateSnowballs_meshes_other:
  "\<forall>s \<in> set ss. mesh (snowballObjs st s) \<noteq> m \<Longrightarrow>
   meshes (updateSnowballs dt ss st) m = meshes st m"
  by (induction ss arbitrary: st) (simp_all add: updateSnowball_meshes_other)

lemma updateSnowballs_toRemove:
  "set (toRemove st) \<subseteq> set (toRemove (updateSnowballs dt ss st))"
  "set (toRemove (updateSnowballs dt ss st)) \<subseteq> set ss \<union> set (toRemove st)"
proof (induction ss arbitrary: st)
  case Nil
  { case 1 show ?case by simp }
  { case 2 show ?case by simp }
next
  case (Cons s ss)
  { case 1 show ?case
      using Cons(1)[of "updateSnowball dt s st"] updateSnowball_toRemove(1)[of st dt s]
      by auto }
  { case 2 show ?case
      using Cons(2)[of "updateSnowball dt s st"] updateSnowball_toRemove(2)[of dt s st]
      by auto }
qed

lemma updateSnowballs_at:
  assumes "s \<in> set ss" "distinct ss"
    and "\<forall>x \<in> set ss. x \<noteq> s \<longrightarrow> mesh (snowballObjs st x) \<noteq> mesh (snowballObjs st s)"
    and "body (snowballObjs st s) \<in> set (worldBodies st)" "s \<notin> set (toRemove st)"
  shows "timeAlive (snowballObjs (updateSnowballs dt ss st) s)
           = timeAlive (snowballObjs st s) + dt \<and>
         meshes (updateSnowballs dt ss st) (mesh (snowballObjs st s))
           = (meshes st (mesh (snowballObjs st s)))
               \<lparr>mpos := bpos (bodies st (body (snowballObjs st s))),
                mquat := bquat (bodies st (body (snowballObjs st s)))\<rparr> \<and>
         (s \<in> set (toRemove (updateSnowballs dt ss st)) \<longleftrightarrow>
            timeAlive (snowballObjs st s) + dt > 5 \<or>
            vy (bpos (bodies st (body (snowballObjs st s)))) < - 3)"
  using assms
proof (induction ss arbitrary: st)
  case Nil
  then show ?case by simp
next
  case (Cons x ss)
  let ?st1 = "updateSnowball dt x st"
  show ?case
  proof (cases "x = s")
    case True
    have notin: "s \<notin> set ss" using Cons.prems(2) True by simp
    have m: "\<forall>y \<in> set ss. mesh (snowballObjs ?st1 y) \<noteq> mesh (snowballObjs st s)"
      using Cons.prems(2,3) True by auto
    show ?thesis
      using updateSnowball_at[OF Cons.prems(4,5), of dt] True
        updateSnowballs_other[OF notin, of dt ?st1] updateSnowballs_meshes_other[OF m, of dt]
      by simp
  next
    case False
    then have s: "s \<in> set ss" using Cons.prems(1) by simp
    have d: "distinct ss" using Cons.prems(2) by simp
    have m: "\<forall>y \<in> set ss. y \<noteq> s \<longrightarrow>
               mesh (snowballObjs ?st1 y) \<noteq> mesh (snowballObjs ?st1 s)"
      using Cons.prems(3) by simp
    have b: "body (snowballObjs ?st1 s) \<in> set (worldBodies ?st1)"
      using Cons.prems(4) by simp
    have t: "s \<notin> set (toRemove ?st1)"
      using Cons.prems(5) False updateSnowball_other(2)[of s x dt st] by simp
    have mx: "mesh (snowballObjs st s) \<noteq> mesh (snowballObjs st x)"
      using Cons.prems(3) False by auto
    show ?thesis
      using Cons.IH[OF s d m b t] False updateSnowball_other(1)[of s x dt st]
        updateSnowball_meshes_other[OF mx, of dt]
      by simp
  qed
qed

lemma animate_eq:
  "animate L st =
     (if completed (step L (1 / 60) (1 / 60) 3 st)
      then render (updateSnowballs (1 / 60)
                     (rev (snowballs (syncCard (cleanupPhysics (afterStep L st)))))
                     (syncCard (cleanupPhysics (afterStep L st))))
      else render (cleanupPhysics (afterStep L st)))"
  by (simp add: animate_def afterStep_def Let_def)

text \<open>
  When \<open>world.step\<close> throws, the frame only cleans up: no mesh is moved, the card included.
\<close>

lemma animate_step_throws:
  assumes "\<not> completed (step L (1 / 60) (1 / 60) 3 st)"
  shows "animate L st = render (cleanupPhysics (afterStep L st))"
    and "meshes (animate L st) = meshes st"
  using assms by (simp_all add: animate_eq)

section \<open>Well-formed states: preservation\<close>

lemma created_frame [simp]:
  "created (removeSnowball s st) x = created st x"
  "created (cleanupPhysics st) x = created st x"
  "created (onCollide L s e st) x = created st x"
  "created (afterStep L st) x = created st x"
  "created (syncCard st) x = created st x"
  "created (render st) x = created st x"
  "created (updateSnowballs dt ss st) x = created st x"
  by (simp_all add: created_def)
lemma created_inj:
  "created st x \<Longrightarrow> created st y \<Longrightarrow>
   body (snowballObjs st x) = body (snowballObjs st y) \<Longrightarrow> x = y"
  by (simp add: created_def)
lemma wellFormed_created_listener:
  "wellFormed st \<Longrightarrow> collideListeners st b = Some s \<Longrightarrow> created st s"
  by (auto simp: wellFormed_def created_def)
lemma wellFormed_created_mesh:
  "wellFormed st \<Longrightarrow> created st x \<Longrightarrow> mesh (snowballObjs st x) + 2 = x"
  unfolding wellFormed_def created_def by blast
lemma wellFormed_tracked:
  assumes "wellFormed st" "s \<in> set (snowballs st)"
  shows "created st s" "body (snowballObjs st s) \<in> set (worldBodies st)"
  using assms unfolding wellFormed_def by blast+
lemma wellFormed_card_mesh:
  assumes "wellFormed st" "cardObj st = Some (c, cb)" "created st x"
  shows "mesh (snowballObjs st x) \<noteq> c"
  using assms unfolding wellFormed_def created_def by blast
lemma wellFormed_distinct:
  assumes "wellFormed st"
  shows "distinct (scene st)" "distinct (worldBodies st)" "distinct (snowballs st)"
  using assms unfolding wellFormed_def by blast+

lemma wellFormed_toRemove:
  "wellFormed st \<Longrightarrow> s \<in> set (toRemove st) \<Longrightarrow> created st s"
  unfolding wellFormed_def by blast

lemma wellFormed_transfer:
  assumes "wellFormed st"
    and "scene st' = scene st" "worldBodies st' = worldBodies st"
    and "snowballs st' = snowballs st" "nextId st' = nextId st"
    and "collideListeners st' = collideListeners st" "cardObj st' = cardObj st"
    and "\<And>x. mesh (snowballObjs st' x) = mesh (snowballObjs st x)"
    and "\<And>x. body (snowballObjs st' x) = body (snowballObjs st x)"
    and "\<And>s. s \<in> set (toRemove st') \<Longrightarrow> created st s"
  shows "wellFormed st'"
proof -
  have t: "\<forall>s \<in> set (snowballs st) \<union> set (toRemove st').
             collideListeners st (body (snowballObjs st s)) = Some s"
    using assms(1,10) unfolding wellFormed_def created_def by blast
  show ?thesis
    unfolding wellFormed_def created_def assms(2-9)
    using assms(1) t unfolding wellFormed_def created_def
    by (intro conjI; blast)
qed

lemma wellFormed_afterStep:
  assumes "wellFormed st"
  shows "wellFormed (afterStep L st)"
proof (rule wellFormed_transfer[OF assms])
  fix s assume "s \<in> set (toRemove (afterStep L st))"
  then have "s \<in> set (toRemove st) \<or> (\<exists>b. collideListeners st b = Some s)"
    by (rule afterStep_toRemove(2))
  then show "created st s"
    using wellFormed_toRemove[OF assms] wellFormed_created_listener[OF assms] by blast
qed simp_all
lemma wellFormedI:
  assumes "distinct (scene st)" "distinct (worldBodies st)" "distinct (snowballs st)"
    and "\<And>i. i \<in> set (scene st) \<union> set (worldBodies st) \<Longrightarrow> i < nextId st"
    and "\<And>b s. collideListeners st b = Some s \<Longrightarrow>
           s < nextId st \<and> body (snowballObjs st s) = b \<and> b + 1 = s \<and>
           mesh (snowballObjs st s) + 2 = s"
    and "\<And>s. s \<in> set (snowballs st) \<union> set (toRemove st) \<Longrightarrow> created st s"
    and "\<And>s. s \<in> set (snowballs st) \<Longrightarrow> body (snowballObjs st s) \<in> set (worldBodies st)"
    and "\<And>c cb b s. cardObj st = Some (c, cb) \<Longrightarrow>
           c < nextId st \<and> cb < nextId st \<and>
           (collideListeners st b = Some s \<longrightarrow> mesh (snowballObjs st s) \<noteq> c \<and> b \<noteq> cb)"
  shows "wellFormed st"
  unfolding wellFormed_def using assms by blast

lemma wellFormed_bound:
  "wellFormed st \<Longrightarrow> i \<in> set (scene st) \<union> set (worldBodies st) \<Longrightarrow> i < nextId st"
  unfolding wellFormed_def by blast

lemma wellFormed_listener:
  "wellFormed st \<Longrightarrow> collideListeners st b = Some s \<Longrightarrow>
   s < nextId st \<and> body (snowballObjs st s) = b \<and> b + 1 = s \<and> mesh (snowballObjs st s) + 2 = s"
  unfolding wellFormed_def by blast

lemma wellFormed_card:
  "wellFormed st \<Longrightarrow> cardObj st = Some (c, cb) \<Longrightarrow>
   c < nextId st \<and> cb < nextId st \<and>
   (collideListeners st b = Some s \<longrightarrow> mesh (snowballObjs st s) \<noteq> c \<and> b \<noteq> cb)"
  unfolding wellFormed_def by blast

lemma wellFormed_cleanupPhysics:
  assumes "wellFormed st"
  shows "wellFormed (cleanupPhysics st)"
proof -
  note d = wellFormed_distinct[OF assms]
  have sub: "set (scene (cleanupPhysics st)) \<subseteq> set (scene st)"
    "set (worldBodies (cleanupPhysics st)) \<subseteq> set (worldBodies st)"
    "set (snowballs (cleanupPhysics st)) \<subseteq> set (snowballs st)"
    by (rule cleanupPhysics_subsets)+
  have dist: "distinct (scene (cleanupPhysics st))" "distinct (worldBodies (cleanupPhysics st))"
    "distinct (snowballs (cleanupPhysics st))"
    using d by (simp_all add: cleanupPhysics_lists)
  have inworld: "body (snowballObjs st s) \<in> set (worldBodies (cleanupPhysics st))"
    if s: "s \<in> set (snowballs (cleanupPhysics st))" for s
  proof -
    from s have s1: "s \<in> set (snowballs st)" and s2: "s \<notin> set (toRemove st)"
      using d by (simp_all add: cleanupPhysics_lists)
    have "body (snowballObjs st s) \<notin> (\<lambda>x. body (snowballObjs st x)) ` set (toRemove st)"
    proof
      assume "body (snowballObjs st s) \<in> (\<lambda>x. body (snowballObjs st x)) ` set (toRemove st)"
      then obtain x where x: "x \<in> set (toRemove st)"
        and e: "body (snowballObjs st s) = body (snowballObjs st x)" by auto
      have "created st x" using assms x by (rule wellFormed_toRemove)
      with wellFormed_tracked(1)[OF assms s1] have "s = x" using e by (rule created_inj)
      with x s2 show False by simp
    qed
    then show ?thesis
      using wellFormed_tracked(2)[OF assms s1] d by (simp add: cleanupPhysics_lists)
  qed
  show ?thesis
  proof (rule wellFormedI, goal_cases)
    case 1 show ?case by (rule dist)
  next
    case 2 show ?case by (rule dist)
  next
    case 3 show ?case by (rule dist)
  next
    case (4 i)
    then have "i \<in> set (scene st) \<union> set (worldBodies st)" using sub by blast
    then show ?case using wellFormed_bound[OF assms] by simp
  next
    case (5 b s)
    then show ?case using wellFormed_listener[OF assms, of b s] by simp
  next
    case (6 s)
    then have "s \<in> set (snowballs st)" using sub by auto
    then show ?case using wellFormed_tracked(1)[OF assms] by simp
  next
    case (7 s)
    then show ?case using inworld by simp
  next
    case (8 c cb b s)
    then show ?case using wellFormed_card[OF assms, of c cb b s] by simp
  qed
qed

lemma wellFormed_syncCard:
  assumes "wellFormed st"
  shows "wellFormed (syncCard st)"
  by (rule wellFormed_transfer[OF assms]) (simp_all add: wellFormed_toRemove[OF assms])

lemma wellFormed_render:
  assumes "wellFormed st"
  shows "wellFormed (render st)"
  by (rule wellFormed_transfer[OF assms]) (simp_all add: wellFormed_toRemove[OF assms])

lemma wellFormed_updateSnowballs:
  assumes "wellFormed st" "set ss \<subseteq> set (snowballs st)"
  shows "wellFormed (updateSnowballs dt ss st)"
proof (rule wellFormed_transfer[OF assms(1)])
  fix s assume "s \<in> set (toRemove (updateSnowballs dt ss st))"
  then have "s \<in> set (snowballs st) \<or> s \<in> set (toRemove st)"
    using updateSnowballs_toRemove(2)[of dt ss st] assms(2) by blast
  then show "created st s"
    using wellFormed_toRemove[OF assms(1)] wellFormed_tracked(1)[OF assms(1)] by blast
qed simp_all

lemma wellFormed_animate:
  assumes "wellFormed st"
  shows "wellFormed (animate L st)"
proof -
  have w: "wellFormed (syncCard (cleanupPhysics (afterStep L st)))"
    by (intro wellFormed_syncCard wellFormed_cleanupPhysics wellFormed_afterStep assms)
  have w2: "wellFormed (cleanupPhysics (afterStep L st))"
    by (intro wellFormed_cleanupPhysics wellFormed_afterStep assms)
  show ?thesis
    using wellFormed_render[OF wellFormed_updateSnowballs[OF w, of _ "1 / 60"]]
      wellFormed_render[OF w2]
    by (simp add: animate_eq)
qed

lemma wellFormed_constructed: "wellFormed (constructed rv slider rc rnd)"
  unfolding wellFormed_def created_def by (simp add: constructed_def)

lemma wellFormed_setupCard:
  assumes "wellFormed st"
  shows "wellFormed (setupCard rv w h st)"
proof (rule wellFormedI, goal_cases)
  case 1
  show ?case
    using wellFormed_distinct(1)[OF assms] wellFormed_bound[OF assms, of "nextId st"]
    by (auto simp: setupCard_def Let_def)
next
  case 2
  show ?case
    using wellFormed_distinct(2)[OF assms] wellFormed_bound[OF assms, of "nextId st + 1"]
      wellFormed_bound[OF assms, of "nextId st + 2"]
    by (auto simp: setupCard_def Let_def)
next
  case 3
  show ?case using wellFormed_distinct(3)[OF assms] by (simp add: setupCard_def Let_def)
next
  case (4 i)
  then show ?case
    using wellFormed_bound[OF assms, of i] by (auto simp: setupCard_def Let_def)
next
  case (5 b s)
  then show ?case
    using wellFormed_listener[OF assms, of b s] by (simp add: setupCard_def Let_def)
next
  case (6 s)
  then have "created st s"
    using wellFormed_toRemove[OF assms, of s] wellFormed_tracked(1)[OF assms, of s]
    by (auto simp: setupCard_def Let_def)
  then show ?case by (simp add: created_def setupCard_def Let_def)
next
  case (7 s)
  then show ?case
    using wellFormed_tracked(2)[OF assms, of s] by (simp add: setupCard_def Let_def)
next
  case (8 c cb b s)
  then show ?case
    using wellFormed_listener[OF assms, of b s] by (auto simp: setupCard_def Let_def)
qed

lemma wellFormed_updateAimVisuals:
  assumes "wellFormed st"
  shows "wellFormed (updateAimVisuals rv L ev st)"
proof (cases "isAiming st")
  case True
  show ?thesis
    by (rule wellFormed_transfer[OF assms])
       (simp_all add: updateAimVisuals_def Let_def True wellFormed_toRemove[OF assms])
next
  case False
  then show ?thesis using assms by (simp add: updateAimVisuals_def)
qed

lemma wellFormed_aiming_flag:
  assumes "wellFormed st"
  shows "wellFormed (st\<lparr>isAiming := a, aimingStart := p, currentAim := q, throwPower := t\<rparr>)"
    and "wellFormed (st\<lparr>currentAim := q\<rparr>)"
  by (rule wellFormed_transfer[OF assms]; simp add: wellFormed_toRemove[OF assms])+

lemma wellFormed_startAiming:
  "wellFormed st \<Longrightarrow> wellFormed (startAiming rv L ev st)"
  by (simp add: startAiming_def wellFormed_updateAimVisuals wellFormed_aiming_flag)

lemma wellFormed_updateAiming:
  "wellFormed st \<Longrightarrow> wellFormed (updateAiming rv L ev st)"
  by (simp add: updateAiming_def wellFormed_updateAimVisuals wellFormed_aiming_flag)

lemma wellFormed_removeSnowball:
  assumes "wellFormed st" "created st s"
  shows "wellFormed (removeSnowball s st)"
  by (rule wellFormed_transfer[OF assms(1)])
     (auto simp: wellFormed_toRemove[OF assms(1)] assms(2))

lemma throwSnowball_lists:
  assumes "isAiming st"
  shows "scene (throwSnowball rv L st) = scene st @ [nextId st]"
    and "worldBodies (throwSnowball rv L st) = worldBodies st @ [nextId st + 1]"
    and "snowballs (throwSnowball rv L st) = snowballs st @ [nextId st + 2]"
    and "toRemove (throwSnowball rv L st) = toRemove st"
    and "nextId (throwSnowball rv L st) = nextId st + 3"
    and "cardObj (throwSnowball rv L st) = cardObj st"
    and "collideListeners (throwSnowball rv L st)
           = (collideListeners st)(nextId st + 1 \<mapsto> nextId st + 2)"
    and "mesh (snowballObjs (throwSnowball rv L st) (nextId st + 2)) = nextId st"
    and "body (snowballObjs (throwSnowball rv L st) (nextId st + 2)) = nextId st + 1"
    and "x \<noteq> nextId st + 2 \<Longrightarrow>
           snowballObjs (throwSnowball rv L st) x = snowballObjs st x"
  using assms by (simp_all add: throwSnowball_def Let_def)

lemma created_before_throw:
  assumes "wellFormed st" "created st x"
  shows "x < nextId st" "body (snowballObjs st x) + 1 = x" "mesh (snowballObjs st x) + 2 = x"
  using wellFormed_listener[OF assms(1), of "body (snowballObjs st x)" x] assms(2)
  by (simp_all add: created_def)

lemma created_after_throw:
  assumes "wellFormed st" "isAiming st" "created st x"
  shows "created (throwSnowball rv L st) x"
  using created_before_throw[OF assms(1,3)] assms(3)
  by (simp add: created_def throwSnowball_lists[OF assms(2)])

lemma wellFormed_throwSnowball:
  assumes "wellFormed st"
  shows "wellFormed (throwSnowball rv L st)"
proof (cases "isAiming st")
  case False
  then show ?thesis using assms by (simp add: throwSnowball_def)
next
  case True
  note t = throwSnowball_lists[OF True, where rv = rv and L = L, simplified]
  show ?thesis
  proof (rule wellFormedI, goal_cases)
    case 1
    show ?case
      using wellFormed_distinct(1)[OF assms] wellFormed_bound[OF assms, of "nextId st"]
      by (auto simp: t)
  next
    case 2
    show ?case
      using wellFormed_distinct(2)[OF assms] wellFormed_bound[OF assms, of "nextId st + 1"]
      by (auto simp: t)
  next
    case 3
    show ?case
      using wellFormed_distinct(3)[OF assms]
        created_before_throw(1)[OF assms wellFormed_tracked(1)[OF assms], of "nextId st + 2"]
      by (auto simp: t)
  next
    case (4 i)
    then show ?case using wellFormed_bound[OF assms, of i] by (auto simp: t)
  next
    case (5 b s)
    show ?case
    proof (cases "b = nextId st + 1")
      case True
      with 5 have s: "s = nextId st + 2" by (simp add: t)
      show ?thesis unfolding s True by (simp add: t)
    next
      case False
      with 5 have l: "collideListeners st b = Some s" by (simp add: t)
      from wellFormed_listener[OF assms l] show ?thesis by (simp add: t)
    qed
  next
    case (6 s)
    show ?case
    proof (cases "s = nextId st + 2")
      case True
      then show ?thesis by (simp add: created_def t)
    next
      case False
      with 6 have "created st s"
        using wellFormed_toRemove[OF assms, of s] wellFormed_tracked(1)[OF assms, of s]
        by (auto simp: t)
      then show ?thesis by (rule created_after_throw[OF assms True])
    qed
  next
    case (7 s)
    show ?case
    proof (cases "s = nextId st + 2")
      case True
      then show ?thesis by (simp add: t)
    next
      case False
      with 7 show ?thesis using wellFormed_tracked(2)[OF assms, of s] by (auto simp: t)
    qed
  next
    case (8 c cb b s)
    then have c: "cardObj st = Some (c, cb)" by (simp add: t)
    show ?case
    proof (cases "b = nextId st + 1")
      case True
      then show ?thesis using wellFormed_card[OF assms c, of b s] by (auto simp: t)
    next
      case False
      show ?thesis
      proof (cases "collideListeners st b = Some s")
        case True
        from wellFormed_listener[OF assms True] wellFormed_card[OF assms c, of b s] True False
        show ?thesis by (simp add: t)
      next
        case nl: False
        with False wellFormed_card[OF assms c, of b s] show ?thesis by (simp add: t)
      qed
    qed
  qed
qed

lemma wellFormed_examples:
  "wellFormed (exampleGame rv)" "wellFormed (aimingGame rv)" "wellFormed firstThrow"
  by (simp_all add: exampleGame_def aimingGame_def firstThrow_def wellFormed_constructed
      wellFormed_setupCard wellFormed_startAiming wellFormed_throwSnowball)

section \<open>Deferred removal: claims\<close>

lemma throwSnowball_keeps:
  "set (scene st) \<subseteq> set (scene (throwSnowball rv L st))"
  "set (worldBodies st) \<subseteq> set (worldBodies (throwSnowball rv L st))"
  "set (snowballs st) \<subseteq> set (snowballs (throwSnowball rv L st))"
  by (auto simp: throwSnowball_def Let_def)

lemma animate_lists:
  "scene (animate L st) = scene (cleanupPhysics (afterStep L st))"
  "worldBodies (animate L st) = worldBodies (cleanupPhysics (afterStep L st))"
  "snowballs (animate L st) = snowballs (cleanupPhysics (afterStep L st))"
  by (simp_all add: animate_eq)

lemma cleanupPhysics_removes:
  assumes "distinct (scene st)" "distinct (worldBodies st)" "distinct (snowballs st)"
    and "x \<in> set (toRemove st)"
  shows "body (snowballObjs st x) \<notin> set (worldBodies (cleanupPhysics st))"
    and "mesh (snowballObjs st x) \<notin> set (scene (cleanupPhysics st))"
    and "x \<notin> set (snowballs (cleanupPhysics st))"
  using assms by (simp_all add: cleanupPhysics_lists)

lemma cleanupPhysics_keeps:
  assumes "distinct (snowballs st)" "x \<in> set (snowballs (cleanupPhysics st))"
  shows "x \<in> set (snowballs st)" "x \<notin> set (toRemove st)"
  using assms by (simp_all add: cleanupPhysics_lists)

text \<open>
  C9.  \<open>removeSnowball\<close> leaves the scene, the world, the \<open>snowballs\<close> array and every object
  as they are and only adds the snowball to \<open>toRemove\<close>.  The collide listeners that run
  during a world step leave the scene, the bodies of the world and the array as they are,
  whatever events the step dispatches; \<open>throwSnowball\<close> only adds to them; and what a frame
  leaves of them is what \<open>cleanupPhysics\<close>, run on the state after the step, leaves.
  After \<open>cleanupPhysics\<close> the set \<open>toRemove\<close> is empty; in a state whose scene, world and
  array have no repetition, the body of every snowball that was in \<open>toRemove\<close> is out of
  the world, its mesh out of the scene and the snowball out of the array, and every
  snowball still in the array was in the array before and was not in \<open>toRemove\<close>.
\<close>

theorem removal_deferred_to_cleanupPhysics:
  "(scene (removeSnowball s st) = scene st \<and>
    worldBodies (removeSnowball s st) = worldBodies st \<and>
    snowballs (removeSnowball s st) = snowballs st \<and>
    meshes (removeSnowball s st) = meshes st \<and>
    bodies (removeSnowball s st) = bodies st \<and>
    snowballObjs (removeSnowball s st) = snowballObjs st \<and>
    set (toRemove (removeSnowball s st)) = insert s (set (toRemove st))) \<and>
   (scene (afterStep L st) = scene st \<and>
    worldBodies (afterStep L st) = worldBodies st \<and>
    snowballs (afterStep L st) = snowballs st) \<and>
   (set (scene st) \<subseteq> set (scene (throwSnowball rv L st)) \<and>
    set (worldBodies st) \<subseteq> set (worldBodies (throwSnowball rv L st)) \<and>
    set (snowballs st) \<subseteq> set (snowballs (throwSnowball rv L st))) \<and>
   (scene (animate L st) = scene (cleanupPhysics (afterStep L st)) \<and>
    worldBodies (animate L st) = worldBodies (cleanupPhysics (afterStep L st)) \<and>
    snowballs (animate L st) = snowballs (cleanupPhysics (afterStep L st))) \<and>
   toRemove (cleanupPhysics st) = [] \<and>
   (distinct (scene st) \<and> distinct (worldBodies st) \<and> distinct (snowballs st) \<longrightarrow>
      (\<forall>x \<in> set (toRemove st).
         body (snowballObjs st x) \<notin> set (worldBodies (cleanupPhysics st)) \<and>
         mesh (snowballObjs st x) \<notin> set (scene (cleanupPhysics st)) \<and>
         x \<notin> set (snowballs (cleanupPhysics st))) \<and>
      (\<forall>x \<in> set (snowballs (cleanupPhysics st)).
         x \<in> set (snowballs st) \<and> x \<notin> set (toRemove st)))"
  using throwSnowball_keeps[of st rv L] animate_lists[of L st]
    cleanupPhysics_removes[of st] cleanupPhysics_keeps[of st]
  by simp

lemma marked_facts:
  "toRemove (removeSnowball 13 firstThrow) = [13]"
  "distinct (scene (removeSnowball 13 firstThrow))"
  "distinct (worldBodies (removeSnowball 13 firstThrow))"
  "distinct (snowballs (removeSnowball 13 firstThrow))"
  by (simp_all add: firstThrow_facts removeSnowball_def)

theorem removal_deferred_to_cleanupPhysics_witness:
  "distinct (scene (removeSnowball 13 firstThrow)) \<and>
   distinct (worldBodies (removeSnowball 13 firstThrow)) \<and>
   distinct (snowballs (removeSnowball 13 firstThrow)) \<and>
   toRemove (removeSnowball 13 firstThrow) = [13] \<and>
   snowballs (removeSnowball 13 firstThrow) = [13] \<and>
   12 \<in> set (worldBodies (removeSnowball 13 firstThrow)) \<and>
   11 \<in> set (scene (removeSnowball 13 firstThrow)) \<and>
   12 \<notin> set (worldBodies (cleanupPhysics (removeSnowball 13 firstThrow))) \<and>
   11 \<notin> set (scene (cleanupPhysics (removeSnowball 13 firstThrow))) \<and>
   13 \<notin> set (snowballs (cleanupPhysics (removeSnowball 13 firstThrow))) \<and>
   toRemove (cleanupPhysics (removeSnowball 13 firstThrow)) = []"
  using removal_deferred_to_cleanupPhysics
    [of 13 "removeSnowball 13 firstThrow" exampleLibs GameJs]
  by (simp add: marked_facts firstThrow_facts)

section \<open>The animation frame: claims\<close>

lemma animate_bodies:
  "bodies (animate L st) = newBodies (step L (1 / 60) (1 / 60) 3 st)"
  by (simp add: animate_eq)

lemma animate_rendered:
  "rendered (animate L st)
     = Some \<lparr>fscene = scene (animate L st), fmeshes = meshes (animate L st)\<rparr>"
  by (simp add: animate_eq)

lemma wellFormed_frame_start:
  "wellFormed st \<Longrightarrow> wellFormed (syncCard (cleanupPhysics (afterStep L st)))"
  by (intro wellFormed_syncCard wellFormed_cleanupPhysics wellFormed_afterStep)

lemma animate_card_pose:
  assumes "wellFormed st" "cardObj st = Some (c, cb)"
    and "completed (step L (1 / 60) (1 / 60) 3 st)"
  shows "mpos (meshes (animate L st) c) = bpos (bodies (animate L st) cb)"
    and "mquat (meshes (animate L st) c) = bquat (bodies (animate L st) cb)"
proof -
  let ?st3 = "syncCard (cleanupPhysics (afterStep L st))"
  have w: "wellFormed ?st3" by (rule wellFormed_frame_start[OF assms(1)])
  have c: "cardObj ?st3 = Some (c, cb)" using assms(2) by simp
  have "\<forall>s \<in> set (rev (snowballs ?st3)). mesh (snowballObjs ?st3 s) \<noteq> c"
    using wellFormed_card_mesh[OF w c] wellFormed_tracked(1)[OF w] by auto
  then have m: "meshes (updateSnowballs (1 / 60) (rev (snowballs ?st3)) ?st3) c = meshes ?st3 c"
    by (rule updateSnowballs_meshes_other)
  have "cardObj (cleanupPhysics (afterStep L st)) = Some (c, cb)" using assms(2) by simp
  from syncCard_card[OF this] m assms(3)
  show "mpos (meshes (animate L st) c) = bpos (bodies (animate L st) cb)"
    and "mquat (meshes (animate L st) c) = bquat (bodies (animate L st) cb)"
    by (simp_all add: animate_eq)
qed

lemma throwing_step:
  "\<not> completed (step throwingLibs dt t n st)"
  "newBodies (step throwingLibs dt t n st) 9 = (bodies st 9)\<lparr>bpos := Vec3 (1 / 10) 0 0\<rparr>"
  by (simp_all add: throwingLibs_def)

lemma firstThrow_card_mesh: "mpos (meshes firstThrow 8) = Vec3 0 0 0"
  by (simp add: firstThrow_def throwSnowball_def aimingGame_facts Let_def sceneObjects_def)
     (simp add: aimingGame_def startAiming_def updateAimVisuals_def Let_def exampleGame_def
        setupCard_def constructed_def sceneObjects_def)

text \<open>
  C4.  The claim: on every animation frame the world is stepped and, right after the step,
  the position and the quaternion of the card mesh are set to those of the card body, so
  that the rendered pose of the card is the body's on every frame.  \<open>animate\<close> does the
  copying inside the \<open>try\<close> block, after \<open>world.step\<close>: when the step throws, the \<open>catch\<close>
  block only runs \<open>cleanupPhysics\<close> and the frame is rendered with the card where it was.
  In the frame \<open>animate throwingLibs firstThrow\<close> the step moves the card body to
  \<open>(0.1, 0, 0)\<close> and throws: the card mesh, also in the rendered frame, stays at
  \<open>(0, 0, 0)\<close>.
\<close>

theorem throwing_step_leaves_card_stale:
  "cardObj firstThrow = Some (8, 9) \<and>
   bpos (bodies (animate throwingLibs firstThrow) 9) = Vec3 (1 / 10) 0 0 \<and>
   mpos (meshes (animate throwingLibs firstThrow) 8) = Vec3 0 0 0 \<and>
   mpos (meshes (animate throwingLibs firstThrow) 8)
     \<noteq> bpos (bodies (animate throwingLibs firstThrow) 9) \<and>
   (\<exists>fr. rendered (animate throwingLibs firstThrow) = Some fr \<and>
         mpos (fmeshes fr 8) = Vec3 0 0 0)"
proof -
  have m: "meshes (animate throwingLibs firstThrow) = meshes firstThrow"
    by (rule animate_step_throws(2)[OF throwing_step(1)])
  have b: "bpos (bodies (animate throwingLibs firstThrow) 9) = Vec3 (1 / 10) 0 0"
    by (simp add: animate_bodies throwing_step)
  show ?thesis
    by (simp add: firstThrow_facts m b firstThrow_card_mesh animate_rendered)
qed

text \<open>
  C4, as the code has it.  In every animation frame \<open>world.step\<close> is called with the fixed
  time step 1/60, the elapsed time 1/60 and at most 3 substeps, and the frame handed to the
  renderer is the scene as the frame leaves it, after the step.  When the step returns and
  the card exists, the position and the quaternion of the card mesh in that frame are
  those of the card body after the step.  When the step throws, no mesh is moved.
\<close>

theorem animate_steps_world_and_syncs_card:
  "bodies (animate L st) = newBodies (step L (1 / 60) (1 / 60) 3 st) \<and>
   rendered (animate L st)
     = Some \<lparr>fscene = scene (animate L st), fmeshes = meshes (animate L st)\<rparr> \<and>
   (wellFormed st \<and> cardObj st = Some (c, cb) \<and> completed (step L (1 / 60) (1 / 60) 3 st) \<longrightarrow>
      mpos (meshes (animate L st) c) = bpos (newBodies (step L (1 / 60) (1 / 60) 3 st) cb) \<and>
      mquat (meshes (animate L st) c) = bquat (newBodies (step L (1 / 60) (1 / 60) 3 st) cb)) \<and>
   (\<not> completed (step L (1 / 60) (1 / 60) 3 st) \<longrightarrow> meshes (animate L st) = meshes st)"
  using animate_bodies[of L st] animate_rendered[of L st] animate_card_pose[of st c cb L]
    animate_step_throws(2)[of L st]
  by simp

lemma swing_step:
  "completed (step swingLibs dt t n st)"
  "newBodies (step swingLibs dt t n st) 9 = (bodies st 9)\<lparr>bpos := Vec3 (1 / 10) 0 0\<rparr>"
  by (simp_all add: swingLibs_def)

theorem animate_steps_world_and_syncs_card_witness:
  "wellFormed firstThrow \<and> cardObj firstThrow = Some (8, 9) \<and>
   completed (step swingLibs (1 / 60) (1 / 60) 3 firstThrow) \<and>
   bpos (bodies (animate swingLibs firstThrow) 9) = Vec3 (1 / 10) 0 0 \<and>
   mpos (meshes (animate swingLibs firstThrow) 8) = Vec3 (1 / 10) 0 0 \<and>
   (\<exists>fr. rendered (animate swingLibs firstThrow) = Some fr \<and>
         mpos (fmeshes fr 8) = Vec3 (1 / 10) 0 0) \<and>
   \<not> completed (step throwingLibs (1 / 60) (1 / 60) 3 firstThrow) \<and>
   meshes (animate throwingLibs firstThrow) = meshes firstThrow"
proof -
  have h: "wellFormed firstThrow" "cardObj firstThrow = Some (8, 9)"
    "completed (step swingLibs (1 / 60) (1 / 60) 3 firstThrow)"
    "\<not> completed (step throwingLibs (1 / 60) (1 / 60) 3 firstThrow)"
    by (simp_all add: wellFormed_examples firstThrow_facts swing_step throwing_step)
  show ?thesis
    using h
      animate_steps_world_and_syncs_card
        [where L = swingLibs and st = firstThrow and c = 8 and cb = 9]
      animate_steps_world_and_syncs_card
        [where L = throwingLibs and st = firstThrow and c = 8 and cb = 9]
    by (simp add: swing_step)
qed

lemma animate_tracked:
  assumes "wellFormed st" "completed (step L (1 / 60) (1 / 60) 3 st)"
  shows "snowballs (animate L st)
           = filter (\<lambda>s. s \<notin> set (toRemove (afterStep L st))) (snowballs st)"
  using wellFormed_distinct(3)[OF assms(1)] by (simp add: animate_lists cleanupPhysics_lists)

lemma animate_snowball:
  assumes "wellFormed st" "completed (step L (1 / 60) (1 / 60) 3 st)"
    and "s \<in> set (snowballs (animate L st))"
  shows "body (snowballObjs (animate L st) s) \<in> set (worldBodies (animate L st))"
    and "timeAlive (snowballObjs (animate L st) s) = timeAlive (snowballObjs st s) + 1 / 60"
    and "mpos (meshes (animate L st) (mesh (snowballObjs (animate L st) s)))
           = bpos (bodies (animate L st) (body (snowballObjs (animate L st) s)))"
    and "mquat (meshes (animate L st) (mesh (snowballObjs (animate L st) s)))
           = bquat (bodies (animate L st) (body (snowballObjs (animate L st) s)))"
    and "s \<in> set (toRemove (animate L st)) \<longleftrightarrow>
           timeAlive (snowballObjs (animate L st) s) > 5 \<or>
           vy (bpos (bodies (animate L st) (body (snowballObjs (animate L st) s)))) < - 3"
proof -
  let ?st3 = "syncCard (cleanupPhysics (afterStep L st))"
  let ?ss = "rev (snowballs ?st3)"
  have w: "wellFormed ?st3" by (rule wellFormed_frame_start[OF assms(1)])
  have a: "animate L st = render (updateSnowballs (1 / 60) ?ss ?st3)"
    using assms(2) by (simp add: animate_eq)
  have s: "s \<in> set (snowballs ?st3)" using assms(3) by (simp add: a)
  then have s': "s \<in> set ?ss" by simp
  have d: "distinct ?ss" using wellFormed_distinct(3)[OF w] by simp
  have inj: "\<forall>x \<in> set ?ss. x \<noteq> s \<longrightarrow> mesh (snowballObjs ?st3 x) \<noteq> mesh (snowballObjs ?st3 s)"
  proof (intro ballI impI)
    fix x assume x: "x \<in> set ?ss" and ne: "x \<noteq> s"
    then have "x \<in> set (snowballs ?st3)" by simp
    from wellFormed_created_mesh[OF w wellFormed_tracked(1)[OF w this]]
      wellFormed_created_mesh[OF w wellFormed_tracked(1)[OF w s]] ne
    show "mesh (snowballObjs ?st3 x) \<noteq> mesh (snowballObjs ?st3 s)" by auto
  qed
  have b: "body (snowballObjs ?st3 s) \<in> set (worldBodies ?st3)"
    by (rule wellFormed_tracked(2)[OF w s])
  have t: "s \<notin> set (toRemove ?st3)" by simp
  note r = updateSnowballs_at[OF s' d inj b t, of "1 / 60"]
  show "body (snowballObjs (animate L st) s) \<in> set (worldBodies (animate L st))"
    using b by (simp add: a)
  show ta: "timeAlive (snowballObjs (animate L st) s) = timeAlive (snowballObjs st s) + 1 / 60"
    using r by (simp add: a)
  show "mpos (meshes (animate L st) (mesh (snowballObjs (animate L st) s)))
          = bpos (bodies (animate L st) (body (snowballObjs (animate L st) s)))"
    using r by (simp add: a)
  show "mquat (meshes (animate L st) (mesh (snowballObjs (animate L st) s)))
          = bquat (bodies (animate L st) (body (snowballObjs (animate L st) s)))"
    using r by (simp add: a)
  show "s \<in> set (toRemove (animate L st)) \<longleftrightarrow>
          timeAlive (snowballObjs (animate L st) s) > 5 \<or>
          vy (bpos (bodies (animate L st) (body (snowballObjs (animate L st) s)))) < - 3"
    unfolding ta using r by (simp add: a)
qed

lemma animate_marks_tracked_only:
  assumes "completed (step L (1 / 60) (1 / 60) 3 st)"
  shows "set (toRemove (animate L st)) \<subseteq> set (snowballs (animate L st))"
  using assms
    updateSnowballs_toRemove(2)[of "1 / 60"
      "rev (snowballs (syncCard (cleanupPhysics (afterStep L st))))"
      "syncCard (cleanupPhysics (afterStep L st))"]
  by (simp add: animate_eq)

lemma animate_removes_marked:
  assumes "wellFormed st" "x \<in> set (toRemove st)"
  shows "x \<notin> set (snowballs (animate L st))"
    and "body (snowballObjs st x) \<notin> set (worldBodies (animate L st))"
    and "mesh (snowballObjs st x) \<notin> set (scene (animate L st))"
proof -
  note d = wellFormed_distinct[OF assms(1)]
  have x: "x \<in> set (toRemove (afterStep L st))"
    using afterStep_toRemove(1)[of st L] assms(2) by blast
  have dd: "distinct (scene (afterStep L st))" "distinct (worldBodies (afterStep L st))"
    "distinct (snowballs (afterStep L st))"
    using d by simp_all
  from cleanupPhysics_removes[OF dd x]
  show "x \<notin> set (snowballs (animate L st))"
    and "body (snowballObjs st x) \<notin> set (worldBodies (animate L st))"
    and "mesh (snowballObjs st x) \<notin> set (scene (animate L st))"
    by (simp_all add: animate_lists)
qed

lemma hit_step:
  "completed (step hitLibs dt t n st)"
  "collisions (step hitLibs dt t n st) = [(bodies st, 12, cardHit)]"
  "newBodies (step hitLibs dt t n st) = bodies st"
  "worldToLocal hitLibs = worldToLocal exampleLibs"
  by (simp_all add: hitLibs_def)

lemma firstThrow_listener: "collideListeners firstThrow 12 = Some 13"
  by (simp add: firstThrow_def throwSnowball_def aimingGame_facts Let_def sceneObjects_def)

lemma firstThrow_body:
  "bpos (bodies firstThrow 12) = Vec3 0 (- (3 / 2)) (7 / 2)"
  by (simp add: firstThrow_def throwSnowball_def aimingGame_facts aimingGame_cannon Let_def
      sceneObjects_def vadd_def multiplyScalar_def)

lemma afterStep_hit:
  "toRemove (afterStep hitLibs firstThrow) = [13]"
  "timeAlive (snowballObjs (afterStep hitLibs firstThrow) 13) = 0"
  "bodies (afterStep hitLibs firstThrow) = bodies firstThrow"
proof -
  have b: "firstThrow\<lparr>bodies := bodies firstThrow\<rparr> = firstThrow" by simp
  have "toRemove (onCollide hitLibs 13 cardHit firstThrow) = [13]"
    by (auto simp: onCollide_def addSnowSplat_def removeSnowball_def Let_def firstThrow_facts
        example_events)
  then show "toRemove (afterStep hitLibs firstThrow) = [13]"
    by (simp add: afterStep_def Let_def hit_step firstThrow_listener b)
  show "timeAlive (snowballObjs (afterStep hitLibs firstThrow) 13) = 0"
    by (simp add: firstThrow_timeAlive)
  show "bodies (afterStep hitLibs firstThrow) = bodies firstThrow"
    by (simp add: hit_step)
qed

text \<open>
  C6.  The claim: on each frame every tracked snowball that is in the world and not pending
  removal gets \<open>timeAlive\<close> increased by 1/60 and its mesh pose copied from its body, and a
  snowball is despawned exactly when \<open>timeAlive\<close> exceeds 5 or the y coordinate of its body
  is below -3.  The last part fails: a snowball is also despawned when it hits the card.
  In the frame \<open>animate hitLibs firstThrow\<close> the world step reports the collision of the
  first snowball with the card; the listener marks the snowball, \<open>cleanupPhysics\<close> takes it
  out of the array, the world and the scene in the same frame, and its \<open>timeAlive\<close> is 0 and
  its body at \<open>y = -1.5\<close>.
\<close>

theorem card_hit_despawns_young_snowball:
  "snowballs firstThrow = [13] \<and>
   snowballs (animate hitLibs firstThrow) = [] \<and>
   12 \<notin> set (worldBodies (animate hitLibs firstThrow)) \<and>
   11 \<notin> set (scene (animate hitLibs firstThrow)) \<and>
   \<not> (5 < timeAlive (snowballObjs (animate hitLibs firstThrow) 13) \<or>
      vy (bpos (bodies (animate hitLibs firstThrow) 12)) < - 3)"
proof -
  have l: "snowballs (animate hitLibs firstThrow) = []"
    "worldBodies (animate hitLibs firstThrow) = [7, 9, 10]"
    "scene (animate hitLibs firstThrow) = [0..<7] @ [8]"
    by (simp_all add: animate_lists cleanupPhysics_lists afterStep_hit firstThrow_facts)
  have t: "timeAlive (snowballObjs (animate hitLibs firstThrow) 13) = 0"
    by (simp add: animate_eq hit_step l [unfolded animate_lists] firstThrow_timeAlive)
  have b: "bpos (bodies (animate hitLibs firstThrow) 12) = Vec3 0 (- (3 / 2)) (7 / 2)"
    by (simp add: animate_bodies hit_step firstThrow_body)
  show ?thesis by (simp add: l t b firstThrow_facts)
qed

text \<open>
  C6, as the code has it.  In a frame whose world step returns, the snowballs that are
  tracked when the loop runs are those of the \<open>snowballs\<close> array that are not marked for
  removal when \<open>cleanupPhysics\<close> runs, after the step.  Each of them has its body in the
  world, gets \<open>timeAlive\<close> increased by exactly 1/60 and its mesh position and quaternion set
  to those of its body, and is marked for removal by the loop exactly when its new
  \<open>timeAlive\<close> exceeds 5 or the y coordinate of its body is below -3; the loop marks no other
  snowball.  A snowball marked at the end of a frame is, after the next frame (whatever its
  step does), out of the \<open>snowballs\<close> array, its body out of the world and its mesh out of
  the scene.  The other snowballs a frame removes are those its step's collide listeners
  have marked: snowballs that have hit the card.
\<close>

theorem animate_ages_and_despawns_snowballs:
  assumes "wellFormed st" "completed (step L (1 / 60) (1 / 60) 3 st)"
  shows "snowballs (animate L st)
           = filter (\<lambda>s. s \<notin> set (toRemove (afterStep L st))) (snowballs st) \<and>
         (\<forall>s \<in> set (snowballs (animate L st)).
            body (snowballObjs (animate L st) s) \<in> set (worldBodies (animate L st)) \<and>
            timeAlive (snowballObjs (animate L st) s) = timeAlive (snowballObjs st s) + 1 / 60 \<and>
            mpos (meshes (animate L st) (mesh (snowballObjs (animate L st) s)))
              = bpos (bodies (animate L st) (body (snowballObjs (animate L st) s))) \<and>
            mquat (meshes (animate L st) (mesh (snowballObjs (animate L st) s)))
              = bquat (bodies (animate L st) (body (snowballObjs (animate L st) s))) \<and>
            (s \<in> set (toRemove (animate L st)) \<longleftrightarrow>
               timeAlive (snowballObjs (animate L st) s) > 5 \<or>
               vy (bpos (bodies (animate L st) (body (snowballObjs (animate L st) s)))) < - 3)) \<and>
         set (toRemove (animate L st)) \<subseteq> set (snowballs (animate L st)) \<and>
         (\<forall>s \<in> set (toRemove (animate L st)).
            s \<notin> set (snowballs (animate L' (animate L st))) \<and>
            body (snowballObjs (animate L st) s) \<notin> set (worldBodies (animate L' (animate L st))) \<and>
            mesh (snowballObjs (animate L st) s) \<notin> set (scene (animate L' (animate L st)))) \<and>
         (\<forall>s \<in> set (toRemove (afterStep L st)).
            s \<in> set (toRemove st) \<or> isCollided (snowballObjs (afterStep L st) s))"
proof (intro conjI ballI)
  show "snowballs (animate L st)
          = filter (\<lambda>s. s \<notin> set (toRemove (afterStep L st))) (snowballs st)"
    by (rule animate_tracked[OF assms])
  show "set (toRemove (animate L st)) \<subseteq> set (snowballs (animate L st))"
    by (rule animate_marks_tracked_only[OF assms(2)])
next
  fix s assume s: "s \<in> set (snowballs (animate L st))"
  note r = animate_snowball[OF assms s]
  show "body (snowballObjs (animate L st) s) \<in> set (worldBodies (animate L st))" by (rule r)
  show "timeAlive (snowballObjs (animate L st) s) = timeAlive (snowballObjs st s) + 1 / 60"
    by (rule r)
  show "mpos (meshes (animate L st) (mesh (snowballObjs (animate L st) s)))
          = bpos (bodies (animate L st) (body (snowballObjs (animate L st) s)))" by (rule r)
  show "mquat (meshes (animate L st) (mesh (snowballObjs (animate L st) s)))
          = bquat (bodies (animate L st) (body (snowballObjs (animate L st) s)))" by (rule r)
  show "s \<in> set (toRemove (animate L st)) \<longleftrightarrow>
          timeAlive (snowballObjs (animate L st) s) > 5 \<or>
          vy (bpos (bodies (animate L st) (body (snowballObjs (animate L st) s)))) < - 3"
    by (rule r)
next
  fix s assume s: "s \<in> set (toRemove (animate L st))"
  note r = animate_removes_marked[OF wellFormed_animate[OF assms(1)] s, of L']
  show "s \<notin> set (snowballs (animate L' (animate L st)))" by (rule r)
  show "body (snowballObjs (animate L st) s) \<notin> set (worldBodies (animate L' (animate L st)))"
    by (rule r)
  show "mesh (snowballObjs (animate L st) s) \<notin> set (scene (animate L' (animate L st)))"
    by (rule r)
next
  fix s assume "s \<in> set (toRemove (afterStep L st))"
  then show "s \<in> set (toRemove st) \<or> isCollided (snowballObjs (afterStep L st) s)"
    by (rule afterStep_marks)
qed

lemma fall_step:
  "completed (step fallLibs dt t n st)"
  "collisions (step fallLibs dt t n st) = []"
  "newBodies (step fallLibs dt t n st) 12 = (bodies st 12)\<lparr>bpos := Vec3 0 (- 4) 0\<rparr>"
  by (simp_all add: fallLibs_def)

lemma afterStep_fall: "toRemove (afterStep fallLibs firstThrow) = []"
  by (simp add: afterStep_def Let_def fall_step firstThrow_facts)

theorem animate_ages_and_despawns_snowballs_witness:
  "wellFormed firstThrow \<and> completed (step fallLibs (1 / 60) (1 / 60) 3 firstThrow) \<and>
   snowballs (animate fallLibs firstThrow) = [13] \<and>
   timeAlive (snowballObjs (animate fallLibs firstThrow) 13) = 1 / 60 \<and>
   bpos (bodies (animate fallLibs firstThrow) 12) = Vec3 0 (- 4) 0 \<and>
   mpos (meshes (animate fallLibs firstThrow) 11) = Vec3 0 (- 4) 0 \<and>
   13 \<in> set (toRemove (animate fallLibs firstThrow)) \<and>
   13 \<notin> set (snowballs (animate exampleLibs (animate fallLibs firstThrow))) \<and>
   12 \<notin> set (worldBodies (animate exampleLibs (animate fallLibs firstThrow))) \<and>
   11 \<notin> set (scene (animate exampleLibs (animate fallLibs firstThrow)))"
proof -
  have h: "wellFormed firstThrow" "completed (step fallLibs (1 / 60) (1 / 60) 3 firstThrow)"
    by (simp_all add: wellFormed_examples fall_step)
  have b: "bpos (bodies (animate fallLibs firstThrow) 12) = Vec3 0 (- 4) 0"
    by (simp add: animate_bodies fall_step)
  have i: "mesh (snowballObjs (animate fallLibs firstThrow) 13) = 11"
    "body (snowballObjs (animate fallLibs firstThrow) 13) = 12"
    by (simp_all add: animate_eq fall_step firstThrow_facts)
  from animate_ages_and_despawns_snowballs [OF h, of exampleLibs]
  have f: "snowballs (animate fallLibs firstThrow) = [13]"
    and g: "\<forall>s \<in> set (snowballs (animate fallLibs firstThrow)).
            timeAlive (snowballObjs (animate fallLibs firstThrow) s)
              = timeAlive (snowballObjs firstThrow s) + 1 / 60 \<and>
            mpos (meshes (animate fallLibs firstThrow)
                    (mesh (snowballObjs (animate fallLibs firstThrow) s)))
              = bpos (bodies (animate fallLibs firstThrow)
                        (body (snowballObjs (animate fallLibs firstThrow) s))) \<and>
            (s \<in> set (toRemove (animate fallLibs firstThrow)) \<longleftrightarrow>
               timeAlive (snowballObjs (animate fallLibs firstThrow) s) > 5 \<or>
               vy (bpos (bodies (animate fallLibs firstThrow)
                           (body (snowballObjs (animate fallLibs firstThrow) s)))) < - 3)"
    and r: "\<forall>s \<in> set (toRemove (animate fallLibs firstThrow)).
            s \<notin> set (snowballs (animate exampleLibs (animate fallLibs firstThrow))) \<and>
            body (snowballObjs (animate fallLibs firstThrow) s)
              \<notin> set (worldBodies (animate exampleLibs (animate fallLibs firstThrow))) \<and>
            mesh (snowballObjs (animate fallLibs firstThrow) s)
              \<notin> set (scene (animate exampleLibs (animate fallLibs firstThrow)))"
    by (simp_all add: afterStep_fall firstThrow_facts)
  from g f have g13: "timeAlive (snowballObjs (animate fallLibs firstThrow) 13) = 1 / 60"
    "mpos (meshes (animate fallLibs firstThrow) 11) = Vec3 0 (- 4) 0"
    "13 \<in> set (toRemove (animate fallLibs firstThrow))"
    by (simp_all add: i b firstThrow_timeAlive)
  from r g13(3) have "13 \<notin> set (snowballs (animate exampleLibs (animate fallLibs firstThrow)))"
    "12 \<notin> set (worldBodies (animate exampleLibs (animate fallLibs firstThrow)))"
    "11 \<notin> set (scene (animate exampleLibs (animate fallLibs firstThrow)))"
    using i by auto
  with h f g13 b show ?thesis by simp
qed

section \<open>Allocation of snowballs: the amended claim\<close>

lemma throwSnowball_new_ids:
  assumes "isAiming st"
  shows "last (snowballs (throwSnowball rv L st)) = nextId st + 2"
    and "nextId (throwSnowball rv L st) = nextId st + 3"
    and "mesh (snowballObjs (throwSnowball rv L st) (nextId st + 2)) = nextId st"
    and "body (snowballObjs (throwSnowball rv L st) (nextId st + 2)) = nextId st + 1"
  using assms by (simp_all add: throwSnowball_def Let_def)

lemma fresh_ids:
  assumes "wellFormed st"
  shows "nextId st \<notin> set (scene st)" "nextId st + 1 \<notin> set (worldBodies st)"
    and "created st x \<Longrightarrow>
           x \<noteq> nextId st + 2 \<and> mesh (snowballObjs st x) \<noteq> nextId st \<and>
           body (snowballObjs st x) \<noteq> nextId st + 1"
proof -
  show "nextId st \<notin> set (scene st)"
    using wellFormed_bound[OF assms, of "nextId st"] by auto
  show "nextId st + 1 \<notin> set (worldBodies st)"
    using wellFormed_bound[OF assms, of "nextId st + 1"] by auto
  assume "created st x"
  from created_before_throw[OF assms this]
  show "x \<noteq> nextId st + 2 \<and> mesh (snowballObjs st x) \<noteq> nextId st \<and>
        body (snowballObjs st x) \<noteq> nextId st + 1"
    by simp
qed

text \<open>
  C7, as the code has it.  There is no pool.  Every throw made while aiming creates a
  mesh, a body and a snowball object with the next three identities: in a well-formed
  state the mesh is not in the scene, the body not in the world, and they are neither the
  mesh nor the body of any snowball created before, despawned or not.  \<open>cleanupPhysics\<close>
  hands out no identity, only takes objects out of the scene, the world and the
  \<open>snowballs\<close> array, and empties \<open>toRemove\<close>: the game keeps no despawned snowball for reuse.
\<close>

theorem throwSnowball_allocates_new_objects:
  "(isAiming st \<longrightarrow>
      (let st' = throwSnowball rv L st;
           s = last (snowballs st');
           sb = snowballObjs st' s
       in s = nextId st + 2 \<and> mesh sb = nextId st \<and> body sb = nextId st + 1 \<and>
          nextId st' = nextId st + 3 \<and>
          (wellFormed st \<longrightarrow>
             mesh sb \<notin> set (scene st) \<and> body sb \<notin> set (worldBodies st) \<and>
             (\<forall>x. created st x \<longrightarrow>
                x \<noteq> s \<and> mesh (snowballObjs st x) \<noteq> mesh sb \<and>
                body (snowballObjs st x) \<noteq> body sb)))) \<and>
   nextId (cleanupPhysics st) = nextId st \<and>
   toRemove (cleanupPhysics st) = [] \<and>
   set (scene (cleanupPhysics st)) \<subseteq> set (scene st) \<and>
   set (worldBodies (cleanupPhysics st)) \<subseteq> set (worldBodies st) \<and>
   set (snowballs (cleanupPhysics st)) \<subseteq> set (snowballs st)"
  using throwSnowball_new_ids[of st rv L] fresh_ids[of st] cleanupPhysics_subsets[of st]
  by (simp add: Let_def)

lemma created_firstThrow: "created firstThrow 13"
  by (simp add: created_def firstThrow_def throwSnowball_def aimingGame_facts Let_def
      sceneObjects_def)

lemma reaiming_facts:
  "isAiming (startAiming GameJs exampleLibs exampleClick despawned)"
  "wellFormed (startAiming GameJs exampleLibs exampleClick despawned)"
  "created (startAiming GameJs exampleLibs exampleClick despawned) 13"
  "nextId (startAiming GameJs exampleLibs exampleClick despawned) = 14"
  "mesh (snowballObjs (startAiming GameJs exampleLibs exampleClick despawned) 13) = 11"
  "body (snowballObjs (startAiming GameJs exampleLibs exampleClick despawned) 13) = 12"
proof -
  have w: "wellFormed despawned"
    unfolding despawned_def
    by (intro wellFormed_cleanupPhysics wellFormed_removeSnowball wellFormed_examples
        created_firstThrow)
  have c: "created despawned 13"
    using created_firstThrow by (simp add: despawned_def)
  have s: "snowballObjs despawned = snowballObjs firstThrow"
    by (simp add: despawned_def)
  show "isAiming (startAiming GameJs exampleLibs exampleClick despawned)"
    by (simp add: startAiming_def updateAimVisuals_def Let_def)
  show "wellFormed (startAiming GameJs exampleLibs exampleClick despawned)"
    by (rule wellFormed_startAiming[OF w])
  show "created (startAiming GameJs exampleLibs exampleClick despawned) 13"
    using c by (simp add: created_def startAiming_def updateAimVisuals_def Let_def)
  show "nextId (startAiming GameJs exampleLibs exampleClick despawned) = 14"
    by (simp add: startAiming_def updateAimVisuals_def Let_def despawned_facts)
  show "mesh (snowballObjs (startAiming GameJs exampleLibs exampleClick despawned) 13) = 11"
    by (simp add: startAiming_def updateAimVisuals_def Let_def s firstThrow_facts)
  show "body (snowballObjs (startAiming GameJs exampleLibs exampleClick despawned) 13) = 12"
    by (simp add: startAiming_def updateAimVisuals_def Let_def s firstThrow_facts)
qed

theorem throwSnowball_allocates_new_objects_witness:
  "isAiming (startAiming GameJs exampleLibs exampleClick despawned) \<and>
   wellFormed (startAiming GameJs exampleLibs exampleClick despawned) \<and>
   created (startAiming GameJs exampleLibs exampleClick despawned) 13 \<and>
   last (snowballs secondThrow) = 16 \<and>
   mesh (snowballObjs secondThrow 16) = 14 \<and>
   body (snowballObjs secondThrow 16) = 15 \<and>
   nextId secondThrow = 17 \<and>
   mesh (snowballObjs (startAiming GameJs exampleLibs exampleClick despawned) 13) \<noteq> 14 \<and>
   body (snowballObjs (startAiming GameJs exampleLibs exampleClick despawned) 13) \<noteq> 15"
  using throwSnowball_allocates_new_objects
    [of "startAiming GameJs exampleLibs exampleClick despawned" GameJs exampleLibs]
  by (simp add: reaiming_facts secondThrow_def [symmetric] Let_def secondThrow_facts)

section \<open>Runs of the game: what every reachable state satisfies\<close>

lemma wellFormed_perform:
  "wellFormed st \<Longrightarrow> wellFormed (perform rv L a st)"
  by (cases a; cases rv)
     (simp_all add: wellFormed_startAiming wellFormed_updateAiming wellFormed_throwSnowball
        wellFormed_animate wellFormed_setupCard)

lemma wellFormed_run:
  "wellFormed st \<Longrightarrow> wellFormed (run rv L as st)"
  by (induction as arbitrary: st) (simp_all add: wellFormed_perform)

lemma wellFormed_started: "wellFormed (started rv slider rc rnd)"
  by (cases rv) (simp_all add: started_def wellFormed_constructed wellFormed_setupCard)

lemma wellFormed_reachable: "wellFormed (run rv L as (started rv slider rc rnd))"
  by (rule wellFormed_run[OF wellFormed_started])

lemma animate_isCollided:
  "isCollided (snowballObjs st x) \<Longrightarrow> isCollided (snowballObjs (animate L st) x)"
  by (simp add: animate_eq afterStep_def Let_def dispatchCollide_isCollided)

lemma collided_perform:
  assumes "wellFormed st" "created st x" "isCollided (snowballObjs st x)"
  shows "created (perform rv L a st) x \<and> isCollided (snowballObjs (perform rv L a st) x)"
proof (cases a)
  case (MouseDown ev)
  then show ?thesis
    using assms(2,3) by (simp add: created_def startAiming_def updateAimVisuals_def Let_def)
next
  case (MouseMove ev)
  then show ?thesis
    using assms(2,3) by (simp add: created_def updateAiming_def updateAimVisuals_def Let_def)
next
  case MouseUp
  show ?thesis
  proof (cases "isAiming st")
    case True
    from created_before_throw(1)[OF assms(1,2)] have "x \<noteq> nextId st + 2" by simp
    then show ?thesis
      using created_after_throw[OF assms(1) True assms(2), of rv L] assms(3) MouseUp
      by (simp add: throwSnowball_lists(10)[OF True])
  next
    case False
    then show ?thesis using assms(2,3) MouseUp by (simp add: throwSnowball_def)
  qed
next
  case Frame
  then show ?thesis
    using assms(2,3) animate_isCollided[of st x L]
    by (simp add: created_def animate_eq)
next
  case (CardTextureLoaded w h)
  then show ?thesis
    using assms(2,3) by (cases rv) (simp_all add: created_def setupCard_def Let_def)
qed

lemma collided_run:
  assumes "wellFormed st" "created st x" "isCollided (snowballObjs st x)"
  shows "isCollided (snowballObjs (run rv L as st) x)"
  using assms
proof (induction as arbitrary: st)
  case Nil
  then show ?case by simp
next
  case (Cons a as)
  from collided_perform[OF Cons.prems, of rv L a] wellFormed_perform[OF Cons.prems(1), of rv L a]
  show ?case using Cons.IH by simp
qed

section \<open>The collide listener: the claim\<close>

lemma wellFormed_onCollide:
  assumes "wellFormed st" "created st s"
  shows "wellFormed (onCollide L s e st)"
proof (rule wellFormed_transfer[OF assms(1)])
  fix x assume "x \<in> set (toRemove (onCollide L s e st))"
  then have "x = s \<or> x \<in> set (toRemove st)"
    using onCollide_toRemove(2)[of L s e st] by blast
  then show "created st x"
    using assms(2) wellFormed_toRemove[OF assms(1)] by blast
qed simp_all

text \<open>
  C2.  The collide listener of a snowball paints only on the first collision with the card
  body.  For an event with any other body (or before the card exists) it changes nothing;
  for a snowball already marked \<open>isCollided\<close> it changes nothing; on the first event with the
  card body it marks the snowball \<open>isCollided\<close>, puts it into \<open>toRemove\<close> and paints one splat
  (six circles).  Hence, whatever sequence of collide events the snowball receives, it
  adds at most one splat to the canvases, and none once it is marked.  The mark is never
  taken back: a snowball the game has created and marked stays marked whatever mouse
  events, frames and collisions follow.
\<close>

theorem collide_listener_splats_once:
  "((\<forall>c cb. cardObj st = Some (c, cb) \<longrightarrow> ebody e \<noteq> cb) \<longrightarrow> onCollide L s e st = st) \<and>
   (isCollided (snowballObjs st s) \<longrightarrow> onCollide L s e st = st) \<and>
   (cardObj st = Some (c, cb) \<and> ebody e = cb \<and> \<not> isCollided (snowballObjs st s) \<longrightarrow>
      isCollided (snowballObjs (onCollide L s e st) s) \<and>
      s \<in> set (toRemove (onCollide L s e st)) \<and>
      circleCount (onCollide L s e st) = circleCount st + 6) \<and>
   circleCount (collideAll L s es st) \<le> circleCount st + 6 \<and>
   (isCollided (snowballObjs st s) \<longrightarrow> collideAll L s es st = st) \<and>
   (wellFormed st \<and> created st s \<and> isCollided (snowballObjs st s) \<longrightarrow>
      isCollided (snowballObjs (run rv L acts st) s))"
  using onCollide_other_body[of st e L s] onCollide_collided[of st s L e]
    onCollide_first_hit[of st c cb e s L] collideAll_count[of L s es st]
    collideAll_collided[of st s L es] collided_run[of st s rv L acts]
  by blast

lemma firstThrow_circleCount: "circleCount firstThrow = 0"
  by (simp add: circleCount_def firstThrow_def throwSnowball_def aimingGame_facts Let_def
      aimingGame_def startAiming_def updateAimVisuals_def exampleGame_canvas blankCanvas_def)

theorem collide_listener_splats_once_witness:
  "cardObj firstThrow = Some (8, 9) \<and> ebody groundHit = 7 \<and> ebody cardHit = 9 \<and>
   \<not> isCollided (snowballObjs firstThrow 13) \<and>
   onCollide exampleLibs 13 groundHit firstThrow = firstThrow \<and>
   isCollided (snowballObjs (onCollide exampleLibs 13 cardHit firstThrow) 13) \<and>
   13 \<in> set (toRemove (onCollide exampleLibs 13 cardHit firstThrow)) \<and>
   circleCount (onCollide exampleLibs 13 cardHit firstThrow) = 6 \<and>
   onCollide exampleLibs 13 cardHit (onCollide exampleLibs 13 cardHit firstThrow)
     = onCollide exampleLibs 13 cardHit firstThrow \<and>
   circleCount (collideAll exampleLibs 13 [groundHit, cardHit, cardHit, groundHit] firstThrow)
     \<le> 6 \<and>
   wellFormed (onCollide exampleLibs 13 cardHit firstThrow) \<and>
   created (onCollide exampleLibs 13 cardHit firstThrow) 13 \<and>
   isCollided (snowballObjs
     (run GameJs exampleLibs [Frame, MouseUp, Frame]
        (onCollide exampleLibs 13 cardHit firstThrow)) 13)"
proof -
  have c: "cardObj firstThrow = Some (8, 9)" and n: "\<not> isCollided (snowballObjs firstThrow 13)"
    by (simp_all add: firstThrow_facts)
  have w: "wellFormed (onCollide exampleLibs 13 cardHit firstThrow)"
    "created (onCollide exampleLibs 13 cardHit firstThrow) 13"
    by (simp_all add: wellFormed_onCollide wellFormed_examples created_firstThrow)
  have g: "\<forall>c cb. cardObj firstThrow = Some (c, cb) \<longrightarrow> ebody groundHit \<noteq> cb"
    by (simp add: c example_events)
  show ?thesis
    using c n g w
      collide_listener_splats_once [where st = firstThrow and e = groundHit
        and L = exampleLibs and s = 13 and c = 8 and cb = 9
        and es = "[groundHit, cardHit, cardHit, groundHit]" and acts = "[]" and rv = GameJs]
      collide_listener_splats_once [where st = firstThrow and e = cardHit
        and L = exampleLibs and s = 13 and c = 8 and cb = 9 and es = "[]" and acts = "[]"
        and rv = GameJs]
      collide_listener_splats_once [where st = "onCollide exampleLibs 13 cardHit firstThrow"
        and e = cardHit and L = exampleLibs and s = 13 and c = 8 and cb = 9 and es = "[]"
        and acts = "[Frame, MouseUp, Frame]" and rv = GameJs]
    by (simp add: example_events firstThrow_circleCount del: collideAll.simps run.simps)
qed

end
